theory Spec2Isabelle
  imports Main "HOL-Library.Sublist" "HOL-Library.List_Lexorder" "HOL-Library.AList"
begin

section \<open>Text, bytes and the interpreter's string primitives\<close>

text \<open>
  A Python \<open>bytes\<close> value is a \<open>char list\<close> (an Isabelle \<open>char\<close> is one byte); a Python
  \<open>str\<close> is the list of its code points.  \<open>str\<close> turns an ASCII literal of the source
  into such a text.
\<close>

type_synonym bytes = "char list"
type_synonym ustr = "nat list"

definition str :: "string \<Rightarrow> ustr" where
  "str s = map of_char s"

text \<open>
  The character classes of \<open>re\<close> on \<open>str\<close> patterns are Unicode aware.  On ASCII they are
  written out below; above ASCII they are read from the interpreter's Unicode database, which
  is a parameter of the model: it gives every code point one class (white space, a decimal
  digit with its value, another alphanumeric character, or none of these).
\<close>

datatype uclass = USpace | UDecimal nat | UAlnum | UOther

type_synonym unicode_db = "nat \<Rightarrow> uclass"

definition is_space :: "unicode_db \<Rightarrow> nat \<Rightarrow> bool" where
  "is_space db c =
     (if c < 128 then (9 \<le> c \<and> c \<le> 13) \<or> (28 \<le> c \<and> c \<le> 32)
      else db c = USpace)"

definition is_digit :: "unicode_db \<Rightarrow> nat \<Rightarrow> bool" where
  "is_digit db c =
     (if c < 128 then 48 \<le> c \<and> c \<le> 57
      else (case db c of UDecimal v \<Rightarrow> True | _ \<Rightarrow> False))"

definition is_word :: "unicode_db \<Rightarrow> nat \<Rightarrow> bool" where
  "is_word db c =
     (if c < 128
      then (48 \<le> c \<and> c \<le> 57) \<or> (65 \<le> c \<and> c \<le> 90) \<or> c = 95 \<or> (97 \<le> c \<and> c \<le> 122)
      else (case db c of UDecimal v \<Rightarrow> True | UAlnum \<Rightarrow> True | _ \<Rightarrow> False))"

definition digit_value :: "unicode_db \<Rightarrow> nat \<Rightarrow> nat" where
  "digit_value db c =
     (if c < 128 then c - 48 else (case db c of UDecimal v \<Rightarrow> v | _ \<Rightarrow> 0))"

subsection \<open>Exceptions\<close>

datatype exn =
    UnicodeDecodeError
  | UnicodeEncodeError
  | ValueError
  | KeyError ustr
  | FileExistsError ustr
  | NotADirectoryError ustr
  | IsADirectoryError ustr
  | FileNotFoundError ustr
  | OSError ustr

subsection \<open>\<open>bytes.decode('utf-8')\<close> and \<open>str.encode('utf-8')\<close>\<close>

definition cont :: "nat \<Rightarrow> bool" where
  "cont b = (128 \<le> b \<and> b \<le> 191)"

fun utf8_dec :: "nat list \<Rightarrow> ustr option" where
  "utf8_dec [] = Some []"
| "utf8_dec (b0 # r0) =
     (if b0 < 128 then map_option ((#) b0) (utf8_dec r0)
      else if 194 \<le> b0 \<and> b0 \<le> 223 then
        (case r0 of
           b1 # r1 \<Rightarrow>
             if cont b1
             then map_option ((#) ((b0 - 192) * 64 + (b1 - 128))) (utf8_dec r1)
             else None
         | _ \<Rightarrow> None)
      else if 224 \<le> b0 \<and> b0 \<le> 239 then
        (case r0 of
           b1 # b2 # r2 \<Rightarrow>
             if cont b1 \<and> cont b2 \<and> (if b0 = 224 then 160 \<le> b1 else True)
                \<and> (if b0 = 237 then b1 \<le> 159 else True)
             then map_option ((#) ((b0 - 224) * 4096 + (b1 - 128) * 64 + (b2 - 128)))
                    (utf8_dec r2)
             else None
         | _ \<Rightarrow> None)
      else if 240 \<le> b0 \<and> b0 \<le> 244 then
        (case r0 of
           b1 # b2 # b3 # r3 \<Rightarrow>
             if cont b1 \<and> cont b2 \<and> cont b3 \<and> (if b0 = 240 then 144 \<le> b1 else True)
                \<and> (if b0 = 244 then b1 \<le> 143 else True)
             then map_option
                    ((#) ((b0 - 240) * 262144 + (b1 - 128) * 4096 + (b2 - 128) * 64 + (b3 - 128)))
                    (utf8_dec r3)
             else None
         | _ \<Rightarrow> None)
      else None)"

definition utf8_decode :: "bytes \<Rightarrow> exn + ustr" where
  "utf8_decode bs =
     (case utf8_dec (map of_char bs) of None \<Rightarrow> Inl UnicodeDecodeError | Some t \<Rightarrow> Inr t)"

subsection \<open>\<open>re.search\<close> for the patterns of the source\<close>

text \<open>
  The two patterns of the source are sequences of literals and greedy repetitions of one
  character class, one of them the capture group.  \<open>re_match\<close> is the backtracking matcher
  anchored at the start of its input: a repetition first takes the longest run and gives
  characters back one at a time while the rest of the pattern fails.  \<open>re_search\<close> tries
  every start position from the left and returns group 1 of the first match.
\<close>

datatype cclass = CSpace | CDigit | CWord

datatype re_item = Lit ustr | Rep cclass nat bool

fun in_class :: "unicode_db \<Rightarrow> cclass \<Rightarrow> nat \<Rightarrow> bool" where
  "in_class db CSpace c = is_space db c"
| "in_class db CDigit c = is_digit db c"
| "in_class db CWord c = is_word db c"

fun first_some :: "('a \<Rightarrow> 'b option) \<Rightarrow> 'a list \<Rightarrow> 'b option" where
  "first_some f [] = None"
| "first_some f (x # xs) = (case f x of Some y \<Rightarrow> Some y | None \<Rightarrow> first_some f xs)"

fun re_match :: "unicode_db \<Rightarrow> re_item list \<Rightarrow> ustr \<Rightarrow> ustr option \<Rightarrow> ustr option option" where
  "re_match db [] s g = Some g"
| "re_match db (Lit l # r) s g =
     (if prefix l s then re_match db r (drop (length l) s) g else None)"
| "re_match db (Rep c m cap # r) s g =
     first_some (\<lambda>k. re_match db r (drop k s) (if cap then Some (take k s) else g))
       (rev [m ..< Suc (length (takeWhile (in_class db c) s))])"

fun re_search :: "unicode_db \<Rightarrow> re_item list \<Rightarrow> ustr \<Rightarrow> ustr option option" where
  "re_search db p [] = re_match db p [] None"
| "re_search db p (c # t) =
     (case re_match db p (c # t) None of
        Some g \<Rightarrow> Some g
      | None \<Rightarrow> re_search db p t)"

text \<open>\<open>r'container_name:\s*webtop-ubuntu-xfce-(\w+)'\<close> and \<open>r'-\s*(\d+):3000'\<close>.\<close>

definition user_pattern :: "re_item list" where
  "user_pattern =
     [Lit (str ''container_name:''), Rep CSpace 0 False,
      Lit (str ''webtop-ubuntu-xfce-''), Rep CWord 1 True]"

definition port_pattern :: "re_item list" where
  "port_pattern = [Lit (str ''-''), Rep CSpace 0 False, Rep CDigit 1 True, Lit (str '':3000'')]"

text \<open>
  \<open>int(s)\<close> on the text of group 1.  The value is read in base ten from the decimal value of
  every character; a text that is empty or holds another character is a \<open>ValueError\<close> (the
  signs, underscores and surrounding blanks that \<open>int\<close> also accepts never stand in a run of
  \<open>\d\<close>).  The interpreter converts at most \<open>sys.int_info.default_max_str_digits\<close> = 4300
  digits, a limit the program leaves as it is: a longer text is a \<open>ValueError\<close> too.  Below
  the limit the integer is unbounded.
\<close>

definition decimal_value :: "unicode_db \<Rightarrow> ustr \<Rightarrow> nat" where
  "decimal_value db s = foldl (\<lambda>acc c. acc * 10 + digit_value db c) 0 s"

definition int_max_str_digits :: nat where
  "int_max_str_digits = 4300"

definition py_int :: "unicode_db \<Rightarrow> ustr \<Rightarrow> exn + int" where
  "py_int db s =
     (if s \<noteq> [] \<and> list_all (is_digit db) s
      then (if length s > int_max_str_digits then Inl ValueError
            else Inr (int (decimal_value db s)))
      else Inl ValueError)"

fun utf8_enc1 :: "nat \<Rightarrow> nat list option" where
  "utf8_enc1 c =
     (if c < 128 then Some [c]
      else if c < 2048 then Some [192 + c div 64, 128 + c mod 64]
      else if c < 65536 then
        (if 55296 \<le> c \<and> c \<le> 57343 then None
         else Some [224 + c div 4096, 128 + (c div 64) mod 64, 128 + c mod 64])
      else if c \<le> 1114111 then
        Some [240 + c div 262144, 128 + (c div 4096) mod 64, 128 + (c div 64) mod 64,
              128 + c mod 64]
      else None)"

fun utf8_encode :: "ustr \<Rightarrow> exn + bytes" where
  "utf8_encode [] = Inr []"
| "utf8_encode (c # cs) =
     (case utf8_enc1 c of
        None \<Rightarrow> Inl UnicodeEncodeError
      | Some bs \<Rightarrow>
          (case utf8_encode cs of
             Inl e \<Rightarrow> Inl e
           | Inr rest \<Rightarrow> Inr (map char_of bs @ rest)))"

subsection \<open>String operations of the source\<close>

definition NL :: ustr where
  "NL = [10]"

definition SQ :: ustr where
  "SQ = [39]"

text \<open>\<open>str(i)\<close> and \<open>f"{i}"\<close> for an integer that is not negative.\<close>

function str_of_nat :: "nat \<Rightarrow> ustr" where
  "str_of_nat n = (if n < 10 then [48 + n] else str_of_nat (n div 10) @ [48 + n mod 10])"
  by pat_completeness auto
termination
  by (relation "measure id") auto

declare str_of_nat.simps [simp del]



text \<open>\<open>s.split()\<close>: the maximal runs of characters that are not white space.\<close>

fun split_ws :: "unicode_db \<Rightarrow> ustr \<Rightarrow> ustr \<Rightarrow> ustr list" where
  "split_ws db cur [] = (if cur = [] then [] else [cur])"
| "split_ws db cur (c # cs) =
     (if is_space db c
      then (if cur = [] then split_ws db [] cs else cur # split_ws db [] cs)
      else split_ws db (cur @ [c]) cs)"

fun join :: "ustr \<Rightarrow> ustr list \<Rightarrow> ustr" where
  "join sep [] = []"
| "join sep [x] = x"
| "join sep (x # y # r) = x @ sep @ join sep (y # r)"

definition strip_chars :: "ustr \<Rightarrow> ustr \<Rightarrow> ustr" where
  "strip_chars cs s =
     rev (dropWhile (\<lambda>c. c \<in> set cs) (rev (dropWhile (\<lambda>c. c \<in> set cs) s)))"

subsection \<open>\<open>os.path\<close> on POSIX\<close>

definition path_join :: "ustr \<Rightarrow> ustr \<Rightarrow> ustr" where
  "path_join a b =
     (if prefix (str ''/'') b then b
      else if a = [] \<or> suffix (str ''/'') a then a @ b
      else a @ str ''/'' @ b)"

definition dirname :: "ustr \<Rightarrow> ustr" where
  "dirname p =
     (let head = rev (dropWhile (\<lambda>c. c \<noteq> 47) (rev p))
      in if list_all (\<lambda>c. c = 47) head then head
         else rev (dropWhile (\<lambda>c. c = 47) (rev head)))"

subsection \<open>\<open>werkzeug.utils.secure_filename\<close> on POSIX\<close>

text \<open>
  The name is normalised to NFKD (a parameter of the model, read from the Unicode
  database), its characters outside ASCII are dropped, every \<open>/\<close> becomes a blank, the
  words are joined by \<open>_\<close>, every character outside \<open>[A-Za-z0-9_.-]\<close> is removed and leading
  and trailing \<open>.\<close> and \<open>_\<close> are stripped.
\<close>

definition safe_char :: "nat \<Rightarrow> bool" where
  "safe_char c =
     ((48 \<le> c \<and> c \<le> 57) \<or> (65 \<le> c \<and> c \<le> 90) \<or> (97 \<le> c \<and> c \<le> 122)
      \<or> c = 95 \<or> c = 46 \<or> c = 45)"

definition secure_filename :: "unicode_db \<Rightarrow> (ustr \<Rightarrow> ustr) \<Rightarrow> ustr \<Rightarrow> ustr" where
  "secure_filename db nfkd name =
     (let n1 = nfkd name;
          n2 = filter (\<lambda>c. c < 128) n1;
          n3 = map (\<lambda>c. if c = 47 then 32 else c) n2;
          n4 = join (str ''_'') (split_ws db [] n3);
          n5 = filter safe_char n4
      in strip_chars (str ''._'') n5)"


section \<open>Uploaded files\<close>

text \<open>
  A \<open>FileStorage\<close>: the client's file name, the bytes of the stream and the read position.
  \<open>seek\<close> and \<open>read\<close> move the position; \<open>read\<close> returns the bytes from the position on.
\<close>

record file_storage =
  filename :: "ustr option"
  stream :: bytes
  pos :: nat

definition seek :: "file_storage \<Rightarrow> nat \<Rightarrow> file_storage" where
  "seek f n = f\<lparr>pos := n\<rparr>"

definition read :: "file_storage \<Rightarrow> bytes \<times> file_storage" where
  "read f = (drop (pos f) (stream f), f\<lparr>pos := max (pos f) (length (stream f))\<rparr>)"

section \<open>Manifest inspector\<close>

text \<open>
  Both helpers return their result and the file object as they leave it.  Every exception
  raised inside the \<open>try\<close> is caught and the function returns \<open>None\<close>; after a decoding error
  the second \<open>seek(0)\<close> has not run.
\<close>

definition extract_user_from_yaml :: "unicode_db \<Rightarrow> file_storage \<Rightarrow> ustr option \<times> file_storage" where
  "extract_user_from_yaml db yaml_file =
     (let f1 = seek yaml_file 0;
          (raw, f2) = read f1
      in case utf8_decode raw of
           Inl e \<Rightarrow> (None, f2)
         | Inr content \<Rightarrow>
             (let f3 = seek f2 0
              in case re_search db user_pattern content of
                   Some g \<Rightarrow> (g, f3)
                 | None \<Rightarrow> (None, f3)))"

definition extract_port_from_yaml :: "unicode_db \<Rightarrow> file_storage \<Rightarrow> int option \<times> file_storage" where
  "extract_port_from_yaml db yaml_file =
     (let f1 = seek yaml_file 0;
          (raw, f2) = read f1
      in case utf8_decode raw of
           Inl e \<Rightarrow> (None, f2)
         | Inr content \<Rightarrow>
             (let f3 = seek f2 0
              in case re_search db port_pattern content of
                   Some (Some g) \<Rightarrow>
                     (case py_int db g of Inl e \<Rightarrow> (None, f3) | Inr n \<Rightarrow> (Some n, f3))
                 | _ \<Rightarrow> (None, f3)))"


section \<open>The registry on disk and the container runtime\<close>

text \<open>
  The file system is a list of absolute paths with what stands there, a directory or a file
  with its bytes (permission bits are not part of it, so \<open>os.chmod\<close> changes nothing).
  File-system calls fail where the tree makes them fail.  The container runtime and the
  process table are outside the program: what \<open>subprocess.run\<close> and \<open>subprocess.Popen\<close>
  answer is a parameter of the model, and the world records every process that was started.
\<close>

datatype node = Dir | File bytes

type_synonym filesystem = "(ustr \<times> node) list"

record command =
  argv :: "ustr list"
  cwd :: "ustr option"

record completed =
  returncode :: int
  stdout :: ustr
  stderr :: ustr

record world =
  fs :: filesystem
  calls :: "command list"

record platform =
  unicode :: unicode_db
  nfkd :: "ustr \<Rightarrow> ustr"
  subprocess_run :: "world \<Rightarrow> command \<Rightarrow> exn + completed"
  popen :: "world \<Rightarrow> command \<Rightarrow> exn + nat"

definition path_exists :: "filesystem \<Rightarrow> ustr \<Rightarrow> bool" where
  "path_exists t p = (map_of t p \<noteq> None)"

definition child_name :: "ustr \<Rightarrow> ustr \<Rightarrow> ustr option" where
  "child_name d p =
     (if prefix (d @ str ''/'') p
      then (let n = drop (length d + 1) p
            in if n \<noteq> [] \<and> 47 \<notin> set n then Some n else None)
      else None)"

definition listdir :: "filesystem \<Rightarrow> ustr \<Rightarrow> exn + ustr list" where
  "listdir t d =
     (case map_of t d of
        None \<Rightarrow> Inl (FileNotFoundError d)
      | Some (File b) \<Rightarrow> Inl (NotADirectoryError d)
      | Some Dir \<Rightarrow> Inr (List.map_filter (\<lambda>(p, n). child_name d p) t))"

text \<open>\<open>os.makedirs(p, exist_ok=True)\<close>: every missing directory on the way to \<open>p\<close> is created.\<close>

definition path_prefixes :: "ustr \<Rightarrow> ustr list" where
  "path_prefixes p = map (\<lambda>i. take i p) (filter (\<lambda>i. p ! i = 47) [1 ..< length p]) @ [p]"

fun mkdir_chain :: "ustr list \<Rightarrow> filesystem \<Rightarrow> exn + filesystem" where
  "mkdir_chain [] t = Inr t"
| "mkdir_chain (q # qs) t =
     (case map_of t q of
        None \<Rightarrow> mkdir_chain qs (AList.update q Dir t)
      | Some Dir \<Rightarrow> mkdir_chain qs t
      | Some (File b) \<Rightarrow> Inl (if qs = [] then FileExistsError q else NotADirectoryError q))"

definition makedirs :: "filesystem \<Rightarrow> ustr \<Rightarrow> exn + filesystem" where
  "makedirs t p = mkdir_chain (path_prefixes p) t"

text \<open>The error of opening \<open>p\<close> for writing, if any.\<close>

definition open_w :: "filesystem \<Rightarrow> ustr \<Rightarrow> exn option" where
  "open_w t p =
     (if suffix (str ''/'') p then Some (IsADirectoryError p)
      else case map_of t p of
             Some Dir \<Rightarrow> Some (IsADirectoryError p)
           | _ \<Rightarrow>
               (case map_of t (dirname p) of
                  Some Dir \<Rightarrow> None
                | Some (File b) \<Rightarrow> Some (NotADirectoryError p)
                | None \<Rightarrow> Some (FileNotFoundError p)))"

text \<open>\<open>FileStorage.save(dst)\<close> copies the stream from its read position on.\<close>

definition save :: "file_storage \<Rightarrow> ustr \<Rightarrow> filesystem \<Rightarrow> exn + filesystem" where
  "save f dst t =
     (case open_w t dst of
        Some e \<Rightarrow> Inl e
      | None \<Rightarrow> Inr (AList.update dst (File (fst (read f))) t))"

text \<open>
  \<open>with open(p, "w", encoding="utf-8") as f\<close> and a sequence of \<open>f.write\<close>: the file keeps
  what was written before a write failed.
\<close>

fun encode_chunks :: "ustr list \<Rightarrow> bytes \<times> exn option" where
  "encode_chunks [] = ([], None)"
| "encode_chunks (c # cs) =
     (case utf8_encode c of
        Inl e \<Rightarrow> ([], Some e)
      | Inr b \<Rightarrow> (let (bs, err) = encode_chunks cs in (b @ bs, err)))"

definition write_text :: "filesystem \<Rightarrow> ustr \<Rightarrow> ustr list \<Rightarrow> exn option \<times> filesystem" where
  "write_text t p chunks =
     (case open_w t p of
        Some e \<Rightarrow> (Some e, t)
      | None \<Rightarrow> (let (data, err) = encode_chunks chunks in (err, AList.update p (File data) t)))"


section \<open>Responses\<close>

text \<open>
  A response is the JSON body with the status code.  \<open>JExn e\<close> stands for \<open>str(e)\<close> and
  \<open>JTrace e\<close> for the formatted traceback of the exception \<open>e\<close>.
\<close>

datatype json =
    JNull
  | JBool bool
  | JInt int
  | JString ustr
  | JList "json list"
  | JObject "(string \<times> json) list"
  | JExn exn
  | JTrace exn

type_synonym response = "json \<times> nat"

definition field :: "response \<Rightarrow> string \<Rightarrow> json option" where
  "field r k = (case fst r of JObject kvs \<Rightarrow> map_of kvs k | _ \<Rightarrow> None)"

definition UPLOAD_DIR :: ustr where
  "UPLOAD_DIR = str ''/opt/webtops/uploads''"

section \<open>Script generator\<close>

text \<open>The texts that \<open>deploy_webtop\<close> writes to \<open>run.sh\<close>, one per \<open>f.write\<close>.\<close>

fun build_chunks :: "ustr \<Rightarrow> nat \<Rightarrow> ustr list \<Rightarrow> ustr list" where
  "build_chunks webtop_id i [] = []"
| "build_chunks webtop_id i (dockerfile # rest) =
     (let image_tag = str ''webtop-custom-'' @ webtop_id @ str ''-'' @ str_of_nat i
      in [str ''echo '' @ SQ @ str ''Building Docker image: '' @ image_tag @ SQ @ NL,
          str ''docker build -f '' @ dockerfile @ str '' -t '' @ image_tag @ str '' .'' @ NL,
          str ''if [ $? -ne 0 ]; then'' @ NL,
          str ''    echo '' @ SQ @ str ''Error: Failed to build '' @ image_tag @ SQ @ NL,
          str ''    exit 1'' @ NL,
          str ''fi'' @ NL @ NL])
     @ build_chunks webtop_id (Suc i) rest"

definition run_sh_chunks :: "ustr \<Rightarrow> ustr \<Rightarrow> ustr \<Rightarrow> ustr list \<Rightarrow> ustr list" where
  "run_sh_chunks webtop_id webtop_dir yaml_filename dockerfiles =
     [str ''#!/bin/bash'' @ NL,
      str ''# Webtop deployment script for user: '' @ webtop_id @ NL,
      str ''# Generated automatically by Webtop API'' @ NL @ NL,
      str ''cd '' @ webtop_dir @ NL @ NL]
     @ (if dockerfiles \<noteq> []
        then [str ''# Build custom Docker images'' @ NL] @ build_chunks webtop_id 1 dockerfiles
        else [])
     @ [str ''# Launch Docker Compose'' @ NL,
        str ''echo '' @ SQ @ str ''Starting Docker Compose with '' @ yaml_filename @ SQ @ NL,
        str ''docker compose -f '' @ yaml_filename @ str '' up -d'' @ NL,
        str ''if [ $? -eq 0 ]; then'' @ NL,
        str ''    echo '' @ SQ @ str ''Webtop deployment successful for user: '' @ webtop_id
          @ SQ @ NL,
        str ''else'' @ NL,
        str ''    echo '' @ SQ @ str ''Error: Docker Compose failed'' @ SQ @ NL,
        str ''    exit 1'' @ NL,
        str ''fi'' @ NL]"

section \<open>Lifecycle operations\<close>

subsection \<open>deploy\<close>

text \<open>
  \<open>request.files\<close> is a multi-dict: the uploaded parts in the order of the request, several
  of them possibly under one key.  \<open>files.keys()\<close> are its distinct keys, \<open>files[key]\<close> and
  \<open>files.get(key)\<close> the first part under the key.  A \<open>FileStorage\<close> is true when its file name
  is not empty.
\<close>

definition truthy :: "file_storage \<Rightarrow> bool" where
  "truthy f = (case filename f of None \<Rightarrow> False | Some n \<Rightarrow> n \<noteq> [])"

text \<open>\<open>x or d\<close> for a text \<open>x\<close> that may be \<open>None\<close>: \<open>d\<close> when \<open>x\<close> is \<open>None\<close> or empty.\<close>

definition py_or :: "ustr option \<Rightarrow> ustr \<Rightarrow> ustr" where
  "py_or x d = (case x of None \<Rightarrow> d | Some n \<Rightarrow> if n = [] then d else n)"

definition json_of_port :: "int option \<Rightarrow> json" where
  "json_of_port port = (case port of None \<Rightarrow> JNull | Some n \<Rightarrow> JInt n)"

text \<open>
  The two loops of the source that save the parts whose key starts with \<open>dockerfile-\<close> and
  with \<open>resource-\<close>: they differ in that prefix and in the default file name.  The state is
  the file system, the names saved so far and the counter; an exception leaves the loop.
\<close>

fun save_uploads ::
  "platform \<Rightarrow> (ustr \<times> file_storage) list \<Rightarrow> ustr \<Rightarrow> ustr \<Rightarrow> ustr \<Rightarrow> ustr list
     \<Rightarrow> filesystem \<times> ustr list \<times> nat \<Rightarrow> exn option \<times> filesystem \<times> ustr list \<times> nat" where
  "save_uploads pf files webtop_dir key_prefix default_stem [] st = (None, st)"
| "save_uploads pf files webtop_dir key_prefix default_stem (key # keys) (t, saved, n) =
     (if prefix key_prefix key then
        (case map_of files key of
           None \<Rightarrow> (Some (KeyError key), (t, saved, n))
         | Some upload \<Rightarrow>
             (let name = secure_filename (unicode pf) (nfkd pf)
                           (py_or (filename upload) (default_stem @ str_of_nat (n + 1)));
                  path = path_join webtop_dir name
              in case save upload path t of
                   Inl e \<Rightarrow> (Some e, (t, saved, n))
                 | Inr t' \<Rightarrow>
                     save_uploads pf files webtop_dir key_prefix default_stem keys
                       (t', saved @ [name], n + 1)))
      else save_uploads pf files webtop_dir key_prefix default_stem keys (t, saved, n))"

definition deploy_failed :: "exn \<Rightarrow> ustr \<Rightarrow> ustr \<Rightarrow> response" where
  "deploy_failed e webtop_id webtop_dir =
     (JObject [(''status'', JString (str ''error'')),
               (''message'', JExn e),
               (''webtop_id'', JString webtop_id),
               (''webtop_dir'', JString webtop_dir),
               (''traceback'', JTrace e)], 500)"

definition missing_compose :: response where
  "missing_compose =
     (JObject [(''status'', JString (str ''error'')),
               (''message'', JString (str ''Missing docker-compose file''))], 400)"

text \<open>
  The part of \<open>deploy_webtop\<close> that works on the file system: the workload directory is
  created, the manifest, the build files and the resources are saved and \<open>run.sh\<close> is
  written.  The result is the exception that ended it, if any, the file system as it is
  left, and the names saved in \<open>saved_files\<close>.
\<close>

definition store_artifacts ::
  "platform \<Rightarrow> (ustr \<times> file_storage) list \<Rightarrow> file_storage \<Rightarrow> ustr \<Rightarrow> ustr \<Rightarrow> ustr
     \<Rightarrow> filesystem \<Rightarrow> exn option \<times> filesystem \<times> ustr list \<times> ustr list" where
  "store_artifacts pf files yaml_file yaml_filename webtop_id webtop_dir t =
     (let keys = sort (remdups (map fst files))
      in case makedirs t webtop_dir of
        Inl e \<Rightarrow> (Some e, t, [], [])
      | Inr t1 \<Rightarrow>
      (case save yaml_file (path_join webtop_dir yaml_filename) t1 of
        Inl e \<Rightarrow> (Some e, t1, [], [])
      | Inr t2 \<Rightarrow>
      (case save_uploads pf files webtop_dir (str ''dockerfile-'') (str ''Dockerfile.'')
              keys (t2, [], 0) of
        (Some e, (t3, dockerfiles, n)) \<Rightarrow> (Some e, t3, dockerfiles, [])
      | (None, (t3, dockerfiles, n)) \<Rightarrow>
      (case save_uploads pf files webtop_dir (str ''resource-'') (str ''resource_'')
              keys (t3, [], 0) of
        (Some e, (t4, resources, m)) \<Rightarrow> (Some e, t4, dockerfiles, resources)
      | (None, (t4, resources, m)) \<Rightarrow>
      (case write_text t4 (path_join webtop_dir (str ''run.sh''))
              (run_sh_chunks webtop_id webtop_dir yaml_filename dockerfiles) of
        (err, t5) \<Rightarrow> (err, t5, dockerfiles, resources))))))"

definition deploy_webtop ::
  "platform \<Rightarrow> (ustr \<times> file_storage) list \<Rightarrow> world \<Rightarrow> response \<times> world" where
  "deploy_webtop pf files w =
     (if files = [] then
        ((JObject [(''status'', JString (str ''error'')),
                   (''message'', JString (str ''No files received''))], 400), w)
      else case map_of files (str ''docker-compose'') of
        None \<Rightarrow> (missing_compose, w)
      | Some yaml_file \<Rightarrow>
        if \<not> truthy yaml_file then (missing_compose, w)
        else
          (let yaml_filename = secure_filename (unicode pf) (nfkd pf)
                                 (py_or (filename yaml_file) (str ''docker-compose.yaml''));
               (extracted, yaml_file1) = extract_user_from_yaml (unicode pf) yaml_file;
               (port, yaml_file2) = extract_port_from_yaml (unicode pf) yaml_file1;
               webtop_id = py_or extracted (str ''default_user'');
               webtop_dir = path_join UPLOAD_DIR (str ''webtop_'' @ webtop_id)
           in case store_artifacts pf files yaml_file2 yaml_filename webtop_id webtop_dir (fs w) of
             (Some e, (t, dockerfiles, resources)) \<Rightarrow>
               (deploy_failed e webtop_id webtop_dir, w\<lparr>fs := t\<rparr>)
           | (None, (t, dockerfiles, resources)) \<Rightarrow>
           (let w5 = w\<lparr>fs := t\<rparr>;
                run_sh_path = path_join webtop_dir (str ''run.sh'');
                cmd = \<lparr>argv = [str ''bash'', run_sh_path], cwd = Some webtop_dir\<rparr>
            in case popen pf w5 cmd of
             Inl e \<Rightarrow> (deploy_failed e webtop_id webtop_dir, w5)
           | Inr pid \<Rightarrow>
               ((JObject
                   [(''status'', JString (str ''success'')),
                    (''message'',
                       JString (str ''Webtop deployment initiated for user: '' @ webtop_id)),
                    (''webtop_dir'', JString webtop_dir),
                    (''webtop_id'', JString webtop_id),
                    (''port'', json_of_port port),
                    (''files'',
                       JObject [(''yaml'', JString yaml_filename),
                                (''dockerfiles'', JList (map JString dockerfiles)),
                                (''resources'', JList (map JString resources))]),
                    (''process_id'', JInt (int pid)),
                    (''container_name'', JString (str ''webtop-ubuntu-xfce-'' @ webtop_id))],
                 200),
                w5\<lparr>calls := calls w5 @ [cmd]\<rparr>))))"

subsection \<open>stop\<close>

definition is_manifest_name :: "ustr \<Rightarrow> bool" where
  "is_manifest_name f = (suffix (str ''.yaml'') f \<or> suffix (str ''.yml'') f)"

definition compose_down :: "ustr \<Rightarrow> ustr \<Rightarrow> command" where
  "compose_down yaml_path webtop_dir =
     \<lparr>argv = [str ''docker'', str ''compose'', str ''-f'', yaml_path, str ''down''],
      cwd = Some webtop_dir\<rparr>"

definition dir_not_found :: "ustr \<Rightarrow> response" where
  "dir_not_found webtop_id =
     (JObject [(''status'', JString (str ''error'')),
               (''message'', JString (str ''Webtop directory not found: '' @ webtop_id))], 404)"

definition request_failed :: "exn \<Rightarrow> ustr \<Rightarrow> response" where
  "request_failed e webtop_id =
     (JObject [(''status'', JString (str ''error'')),
               (''message'', JExn e),
               (''webtop_id'', JString webtop_id)], 500)"

definition stop_webtop :: "platform \<Rightarrow> ustr \<Rightarrow> world \<Rightarrow> response \<times> world" where
  "stop_webtop pf webtop_id w =
     (let webtop_dir = path_join UPLOAD_DIR (str ''webtop_'' @ webtop_id)
      in if \<not> path_exists (fs w) webtop_dir then (dir_not_found webtop_id, w)
         else case listdir (fs w) webtop_dir of
           Inl e \<Rightarrow> (request_failed e webtop_id, w)
         | Inr names \<Rightarrow>
           (case filter is_manifest_name names of
              [] \<Rightarrow>
                ((JObject [(''status'', JString (str ''error'')),
                           (''message'',
                              JString (str ''No YAML file found in webtop directory: ''
                                       @ webtop_id))], 404), w)
            | first # others \<Rightarrow>
                (let yaml_path = path_join webtop_dir first;
                     cmd = compose_down yaml_path webtop_dir
                 in case subprocess_run pf w cmd of
                      Inl e \<Rightarrow> (request_failed e webtop_id, w)
                    | Inr result \<Rightarrow>
                        (let w' = w\<lparr>calls := calls w @ [cmd]\<rparr>
                         in if returncode result = 0 then
                              ((JObject [(''status'', JString (str ''success'')),
                                         (''message'',
                                            JString (str ''Webtop stopped: '' @ webtop_id)),
                                         (''output'', JString (stdout result)),
                                         (''webtop_dir'', JString webtop_dir)], 200), w')
                            else
                              ((JObject [(''status'', JString (str ''error'')),
                                         (''message'', JString (str ''Failed to stop webtop'')),
                                         (''error'', JString (stderr result)),
                                         (''webtop_id'', JString webtop_id)], 500), w')))))"

subsection \<open>cleanup\<close>


subsection \<open>list\<close>




section \<open>What the claims speak of\<close>

text \<open>
  A text starts with the naming-convention field when it reads \<open>container_name:\<close>, white
  space, \<open>webtop-ubuntu-xfce-\<close> and at least one word character; it starts with a port
  mapping when it reads \<open>-\<close>, white space, at least one decimal digit and \<open>:3000\<close>.
\<close>

definition user_field_at :: "unicode_db \<Rightarrow> ustr \<Rightarrow> bool" where
  "user_field_at db s =
     (\<exists>ws tok post. s = str ''container_name:'' @ ws @ str ''webtop-ubuntu-xfce-'' @ tok @ post
        \<and> list_all (is_space db) ws \<and> tok \<noteq> [] \<and> list_all (is_word db) tok)"

definition port_field_at :: "unicode_db \<Rightarrow> ustr \<Rightarrow> bool" where
  "port_field_at db s =
     (\<exists>ws ds post. s = str ''-'' @ ws @ ds @ str '':3000'' @ post
        \<and> list_all (is_space db) ws \<and> ds \<noteq> [] \<and> list_all (is_digit db) ds)"

text \<open>
  Names for what \<open>deploy_webtop\<close> computes from the manifest part \<open>y\<close> of a request: the
  identity, the workload directory, the sanitized manifest name, the port, the file object as
  the two inspector calls leave it, the launch command and the success response.
\<close>

definition deploy_identity :: "platform \<Rightarrow> file_storage \<Rightarrow> ustr" where
  "deploy_identity pf yaml_file =
     py_or (fst (extract_user_from_yaml (unicode pf) yaml_file)) (str ''default_user'')"

definition deploy_dir :: "platform \<Rightarrow> file_storage \<Rightarrow> ustr" where
  "deploy_dir pf yaml_file = path_join UPLOAD_DIR (str ''webtop_'' @ deploy_identity pf yaml_file)"

definition manifest_name :: "platform \<Rightarrow> file_storage \<Rightarrow> ustr" where
  "manifest_name pf yaml_file =
     secure_filename (unicode pf) (nfkd pf) (py_or (filename yaml_file) (str ''docker-compose.yaml''))"

definition manifest_after :: "platform \<Rightarrow> file_storage \<Rightarrow> file_storage" where
  "manifest_after pf yaml_file =
     snd (extract_port_from_yaml (unicode pf)
            (snd (extract_user_from_yaml (unicode pf) yaml_file)))"

definition deploy_port :: "platform \<Rightarrow> file_storage \<Rightarrow> int option" where
  "deploy_port pf yaml_file =
     fst (extract_port_from_yaml (unicode pf)
            (snd (extract_user_from_yaml (unicode pf) yaml_file)))"

definition launch :: "ustr \<Rightarrow> command" where
  "launch webtop_dir =
     \<lparr>argv = [str ''bash'', path_join webtop_dir (str ''run.sh'')], cwd = Some webtop_dir\<rparr>"

definition deploy_ok :: "ustr \<Rightarrow> ustr \<Rightarrow> int option \<Rightarrow> ustr \<Rightarrow> ustr list \<Rightarrow> ustr list \<Rightarrow> nat \<Rightarrow> response" where
  "deploy_ok webtop_id webtop_dir port yaml_filename dockerfiles resources pid =
     (JObject
        [(''status'', JString (str ''success'')),
         (''message'', JString (str ''Webtop deployment initiated for user: '' @ webtop_id)),
         (''webtop_dir'', JString webtop_dir),
         (''webtop_id'', JString webtop_id),
         (''port'', json_of_port port),
         (''files'',
            JObject [(''yaml'', JString yaml_filename),
                     (''dockerfiles'', JList (map JString dockerfiles)),
                     (''resources'', JList (map JString resources))]),
         (''process_id'', JInt (int pid)),
         (''container_name'', JString (str ''webtop-ubuntu-xfce-'' @ webtop_id))],
      200)"

text \<open>
  \<open>artifact_path pf d p\<close>: \<open>p\<close> is \<open>os.path.join(d, name)\<close> for a name that is \<open>run.sh\<close> or a
  result of \<open>secure_filename\<close>.  \<open>writes_inside pf d t t'\<close>: from \<open>t\<close> to \<open>t'\<close> nothing changed but
  files written at such paths, none of them in the place of a directory.
\<close>

definition artifact_path :: "platform \<Rightarrow> ustr \<Rightarrow> ustr \<Rightarrow> bool" where
  "artifact_path pf d p =
     (\<exists>name. p = path_join d name \<and> name \<noteq> []
        \<and> (name = str ''run.sh'' \<or> (\<exists>raw. name = secure_filename (unicode pf) (nfkd pf) raw)))"

definition writes_inside :: "platform \<Rightarrow> ustr \<Rightarrow> filesystem \<Rightarrow> filesystem \<Rightarrow> bool" where
  "writes_inside pf d t t' =
     (\<forall>p. map_of t' p = map_of t p
        \<or> ((\<exists>data. map_of t' p = Some (File data)) \<and> map_of t p \<noteq> Some Dir
            \<and> artifact_path pf d p))"

text \<open>
  The names under which the parts with a given key prefix are saved, for the keys in the
  order the loop visits them; and the texts of the script, block by block.
\<close>

fun upload_names :: "platform \<Rightarrow> (ustr \<times> file_storage) list \<Rightarrow> ustr \<Rightarrow> ustr \<Rightarrow> ustr list \<Rightarrow> nat \<Rightarrow> ustr list" where
  "upload_names pf files key_prefix default_stem [] n = []"
| "upload_names pf files key_prefix default_stem (key # keys) n =
     (if prefix key_prefix key then
        (case map_of files key of
           None \<Rightarrow> upload_names pf files key_prefix default_stem keys n
         | Some upload \<Rightarrow>
             secure_filename (unicode pf) (nfkd pf)
               (py_or (filename upload) (default_stem @ str_of_nat (n + 1)))
             # upload_names pf files key_prefix default_stem keys (n + 1))
      else upload_names pf files key_prefix default_stem keys n)"

definition image_tag :: "ustr \<Rightarrow> nat \<Rightarrow> ustr" where
  "image_tag webtop_id i = str ''webtop-custom-'' @ webtop_id @ str ''-'' @ str_of_nat i"

definition build_block :: "ustr \<Rightarrow> nat \<Rightarrow> ustr \<Rightarrow> ustr list" where
  "build_block webtop_id i dockerfile =
     [str ''echo '' @ SQ @ str ''Building Docker image: '' @ image_tag webtop_id i @ SQ @ NL,
      str ''docker build -f '' @ dockerfile @ str '' -t '' @ image_tag webtop_id i @ str '' .'' @ NL,
      str ''if [ $? -ne 0 ]; then'' @ NL,
      str ''    echo '' @ SQ @ str ''Error: Failed to build '' @ image_tag webtop_id i @ SQ @ NL,
      str ''    exit 1'' @ NL,
      str ''fi'' @ NL @ NL]"

definition launch_block :: "ustr \<Rightarrow> ustr \<Rightarrow> ustr list" where
  "launch_block webtop_id yaml_filename =
     [str ''# Launch Docker Compose'' @ NL,
      str ''echo '' @ SQ @ str ''Starting Docker Compose with '' @ yaml_filename @ SQ @ NL,
      str ''docker compose -f '' @ yaml_filename @ str '' up -d'' @ NL,
      str ''if [ $? -eq 0 ]; then'' @ NL,
      str ''    echo '' @ SQ @ str ''Webtop deployment successful for user: '' @ webtop_id
        @ SQ @ NL,
      str ''else'' @ NL,
      str ''    echo '' @ SQ @ str ''Error: Docker Compose failed'' @ SQ @ NL,
      str ''    exit 1'' @ NL,
      str ''fi'' @ NL]"

definition script_head :: "ustr \<Rightarrow> ustr \<Rightarrow> bool \<Rightarrow> ustr list" where
  "script_head webtop_id webtop_dir builds =
     [str ''#!/bin/bash'' @ NL,
      str ''# Webtop deployment script for user: '' @ webtop_id @ NL,
      str ''# Generated automatically by Webtop API'' @ NL @ NL,
      str ''cd '' @ webtop_dir @ NL @ NL]
     @ (if builds then [str ''# Build custom Docker images'' @ NL] else [])"

text \<open>A text that \<open>str.encode('utf-8')\<close> accepts.\<close>

definition encodable :: "ustr \<Rightarrow> bool" where
  "encodable s = list_all (\<lambda>c. utf8_enc1 c \<noteq> None) s"

text \<open>
  The scenario of the specification: one part, the manifest, under the key \<open>docker-compose\<close>;
  a host whose upload directory exists and where the script is launched as process \<open>pid\<close>.
  \<open>scenario_stored\<close> is the file system the deploy leaves.
\<close>

definition scenario_platform :: "nat \<Rightarrow> platform" where
  "scenario_platform pid =
     \<lparr>unicode = (\<lambda>c. UOther), nfkd = (\<lambda>s. s),
      subprocess_run = (\<lambda>w c. Inl (OSError (str ''docker''))),
      popen = (\<lambda>w c. Inr pid)\<rparr>"

definition scenario_world :: world where
  "scenario_world =
     \<lparr>fs = [(str ''/opt'', Dir), (str ''/opt/webtops'', Dir), (UPLOAD_DIR, Dir)], calls = []\<rparr>"

definition scenario_manifest :: bytes where
  "scenario_manifest =
     ''container_name: webtop-ubuntu-xfce-bob'' @ [CHR 0x0A] @ ''    - '' @ [CHR 0x22]
     @ ''3030:3000'' @ [CHR 0x22]"

definition scenario_yaml :: file_storage where
  "scenario_yaml =
     \<lparr>filename = Some (str ''docker-compose.yaml''), stream = scenario_manifest, pos = 0\<rparr>"

definition scenario_request :: "(ustr \<times> file_storage) list" where
  "scenario_request = [(str ''docker-compose'', scenario_yaml)]"

definition scenario_dir :: ustr where
  "scenario_dir = str ''/opt/webtops/uploads/webtop_bob''"

definition scenario_stored :: filesystem where
  "scenario_stored =
     AList.update (scenario_dir @ str ''/run.sh'')
       (File (fst (encode_chunks
          (run_sh_chunks (str ''bob'') scenario_dir (str ''docker-compose.yaml'') []))))
       (AList.update (scenario_dir @ str ''/docker-compose.yaml'') (File scenario_manifest)
          (fs scenario_world @ [(scenario_dir, Dir)]))"

text \<open>A field of the \<open>files\<close> object of a response.\<close>

definition files_field :: "response \<Rightarrow> string \<Rightarrow> json option" where
  "files_field r k = (case field r ''files'' of Some (JObject kvs) \<Rightarrow> map_of kvs k | _ \<Rightarrow> None)"

text \<open>
  A request whose parts carry path traversal in their file names, with two build files sent
  in the order 2, 1 and one resource, on the host of the scenario above.  \<open>traversal_saved\<close>
  is the file system after the parts are saved, \<open>traversal_stored\<close> the one the deploy leaves.
\<close>

definition traversal_yaml :: file_storage where
  "traversal_yaml =
     \<lparr>filename = Some (str ''../../docker-compose.yaml''), stream = scenario_manifest, pos = 0\<rparr>"

definition traversal_request :: "(ustr \<times> file_storage) list" where
  "traversal_request =
     [(str ''docker-compose'', traversal_yaml),
      (str ''dockerfile-2'',
         \<lparr>filename = Some (str ''b.Dockerfile''), stream = ''FROM b'', pos = 0\<rparr>),
      (str ''dockerfile-1'',
         \<lparr>filename = Some (str ''../a.Dockerfile''), stream = ''FROM a'', pos = 0\<rparr>),
      (str ''resource-1'',
         \<lparr>filename = Some (str ''../../etc/passwd''), stream = ''root'', pos = 0\<rparr>)]"

definition traversal_saved :: filesystem where
  "traversal_saved =
     AList.update (scenario_dir @ str ''/etc_passwd'') (File ''root'')
       (AList.update (scenario_dir @ str ''/b.Dockerfile'') (File ''FROM b'')
          (AList.update (scenario_dir @ str ''/a.Dockerfile'') (File ''FROM a'')
             (AList.update (scenario_dir @ str ''/docker-compose.yaml'') (File scenario_manifest)
                (fs scenario_world @ [(scenario_dir, Dir)]))))"

definition traversal_stored :: filesystem where
  "traversal_stored =
     AList.update (scenario_dir @ str ''/run.sh'')
       (File (fst (encode_chunks
          (run_sh_chunks (str ''bob'') scenario_dir (str ''docker-compose.yaml'')
             [str ''a.Dockerfile'', str ''b.Dockerfile'']))))
       traversal_saved"

text \<open>
  Names for the life-cycle operations: the workload directory of an identity; a host whose
  \<open>subprocess.run\<close> always comes back with one given result and where nothing can be
  launched; the names that \<open>os.listdir\<close> finds in the upload root, and those of them that
  start with \<open>webtop_\<close>; the entry that \<open>list\<close> builds for such a name and the success response
  of \<open>list\<close>.  The worlds: a workload directory of \<open>bob\<close> that holds \<open>run.sh\<close> only; one that
  holds a manifest too; a regular file where that directory would be; an upload root that
  holds the workload directory and two regular files.
\<close>

definition workload_dir :: "ustr \<Rightarrow> ustr" where
  "workload_dir webtop_id = path_join UPLOAD_DIR (str ''webtop_'' @ webtop_id)"

definition runtime_platform :: "completed \<Rightarrow> platform" where
  "runtime_platform result =
     \<lparr>unicode = (\<lambda>c. UOther), nfkd = (\<lambda>s. s),
      subprocess_run = (\<lambda>w c. Inr result),
      popen = (\<lambda>w c. Inl (OSError (str ''bash'')))\<rparr>"

definition empty_workload :: world where
  "empty_workload =
     \<lparr>fs = [(str ''/opt'', Dir), (str ''/opt/webtops'', Dir), (UPLOAD_DIR, Dir),
            (scenario_dir, Dir), (scenario_dir @ str ''/run.sh'', File ''#!/bin/bash'')],
      calls = []\<rparr>"

definition stored_workload :: world where
  "stored_workload =
     \<lparr>fs = [(str ''/opt'', Dir), (str ''/opt/webtops'', Dir), (UPLOAD_DIR, Dir),
            (scenario_dir, Dir),
            (scenario_dir @ str ''/docker-compose.yaml'', File scenario_manifest),
            (scenario_dir @ str ''/run.sh'', File ''#!/bin/bash'')],
      calls = []\<rparr>"






definition blocked_registry :: world where
  "blocked_registry =
     \<lparr>fs = [(str ''/opt'', Dir), (str ''/opt/webtops'', Dir), (UPLOAD_DIR, Dir),
            (scenario_dir, File ''reserved'')],
      calls = []\<rparr>"






section \<open>Manifest inspector: the patterns decide the result\<close>

lemma first_some_SomeD: "first_some f xs = Some y \<Longrightarrow> \<exists>x\<in>set xs. f x = Some y"
  by (induction xs) (auto split: option.splits)

lemma rep_max:
  assumes "m \<le> length (takeWhile (in_class db c) s)"
    and "re_match db r (drop (length (takeWhile (in_class db c) s)) s)
           (if cap then Some (take (length (takeWhile (in_class db c) s)) s) else g) = Some y"
  shows "re_match db (Rep c m cap # r) s g = Some y"
proof -
  let ?n = "length (takeWhile (in_class db c) s)"
  have "rev [m ..< Suc ?n] = ?n # rev [m ..< ?n]"
    using assms(1) by simp
  then show ?thesis
    using assms(2) by simp
qed

lemma rep_sound:
  assumes "re_match db (Rep c m cap # r) s g = Some y"
  shows "\<exists>k. m \<le> k \<and> k \<le> length (takeWhile (in_class db c) s)
           \<and> re_match db r (drop k s) (if cap then Some (take k s) else g) = Some y"
proof -
  from assms obtain k where "k \<in> set (rev [m ..< Suc (length (takeWhile (in_class db c) s))])"
    and "re_match db r (drop k s) (if cap then Some (take k s) else g) = Some y"
    by (auto dest!: first_some_SomeD simp del: upt_Suc)
  then show ?thesis by (auto simp del: upt_Suc)
qed

lemma lit_ok:
  "re_match db (Lit l # r) (l @ s) g = re_match db r s g"
  by simp

lemma lit_sound:
  "re_match db (Lit l # r) s g = Some y \<Longrightarrow> \<exists>s'. s = l @ s' \<and> re_match db r s' g = Some y"
  by (auto simp: prefix_def split: if_splits)

lemma takeWhile_run:
  "list_all P xs \<Longrightarrow> (ys = [] \<or> \<not> P (hd ys)) \<Longrightarrow> takeWhile P (xs @ ys) = xs"
  by (induction xs) (cases ys; auto)+

lemma in_class_fun [simp]:
  "in_class db CSpace = is_space db" "in_class db CDigit = is_digit db"
  "in_class db CWord = is_word db"
  by (rule ext, simp)+

lemma take_takeWhile_all:
  "k \<le> length (takeWhile P s) \<Longrightarrow> list_all P (take k s)"
proof (induction s arbitrary: k)
  case Nil
  then show ?case by simp
next
  case (Cons x xs)
  then show ?case by (cases k) (auto split: if_splits)
qed

lemma space_not_w: "is_space db c \<Longrightarrow> c \<noteq> 119"
  by (auto simp: is_space_def)

lemma digit_not_space: "is_digit db c \<Longrightarrow> \<not> is_space db c"
  by (auto simp: is_space_def is_digit_def split: if_splits uclass.splits)

lemma colon_not_digit: "\<not> is_digit db 58"
  by (simp add: is_digit_def)

lemma user_match_complete:
  assumes "list_all (is_space db) ws" "tok \<noteq> []" "list_all (is_word db) tok"
    and "post = [] \<or> \<not> is_word db (hd post)"
  shows "re_match db user_pattern
           (str ''container_name:'' @ ws @ str ''webtop-ubuntu-xfce-'' @ tok @ post) None
         = Some (Some tok)"
proof -
  let ?l2 = "str ''webtop-ubuntu-xfce-''"
  have tw: "takeWhile (is_word db) (tok @ post) = tok"
    using assms by (simp add: takeWhile_run)
  have w: "re_match db [Rep CWord 1 True] (tok @ post) None = Some (Some tok)"
    by (rule rep_max) (use assms(2) tw in \<open>auto simp: Suc_le_eq\<close>)
  have ts: "takeWhile (is_space db) (ws @ ?l2 @ tok @ post) = ws"
    by (rule takeWhile_run) (use assms(1) space_not_w[of db 119] in \<open>auto simp: str_def\<close>)
  have "re_match db [Rep CSpace 0 False, Lit ?l2, Rep CWord 1 True] (ws @ ?l2 @ tok @ post) None
          = Some (Some tok)"
    by (rule rep_max) (use w ts in \<open>simp_all del: re_match.simps(3) add: lit_ok\<close>)
  then show ?thesis
    unfolding user_pattern_def by (simp only: lit_ok)
qed


lemma user_match_sound:
  assumes "re_match db user_pattern s None = Some y"
  shows "user_field_at db s"
proof -
  let ?l1 = "str ''container_name:''" and ?l2 = "str ''webtop-ubuntu-xfce-''"
  from assms obtain s1 where s: "s = ?l1 @ s1"
    and m1: "re_match db [Rep CSpace 0 False, Lit ?l2, Rep CWord 1 True] s1 None = Some y"
    unfolding user_pattern_def by (blast dest: lit_sound)
  from rep_sound[OF m1] obtain k where k: "k \<le> length (takeWhile (is_space db) s1)"
    and m2: "re_match db [Lit ?l2, Rep CWord 1 True] (drop k s1) None = Some y"
    by auto
  from lit_sound[OF m2] obtain s2 where s2: "drop k s1 = ?l2 @ s2"
    and m3: "re_match db [Rep CWord 1 True] s2 None = Some y"
    by blast
  from rep_sound[OF m3] obtain j where j: "1 \<le> j" "j \<le> length (takeWhile (is_word db) s2)"
    by auto
  have "s1 = take k s1 @ ?l2 @ take j s2 @ drop j s2"
    using s2 by (metis append_take_drop_id)
  moreover have "list_all (is_space db) (take k s1)"
    using k by (rule take_takeWhile_all)
  moreover have "list_all (is_word db) (take j s2)"
    using j(2) by (rule take_takeWhile_all)
  moreover have "take j s2 \<noteq> []"
    using j by (auto simp: take_eq_Nil)
  ultimately show ?thesis
    unfolding user_field_at_def using s by blast
qed

lemma re_search_hit:
  assumes "\<forall>j<length pre. re_match db p (drop j (pre @ s)) None = None"
    and "re_match db p s None = Some g"
  shows "re_search db p (pre @ s) = Some g"
  using assms
proof (induction pre)
  case Nil
  then show ?case by (cases s) simp_all
next
  case (Cons c pre)
  have "re_match db p (c # pre @ s) None = None"
    using Cons.prems(1) by (auto dest: spec[of _ 0])
  moreover have "\<forall>j<length pre. re_match db p (drop j (pre @ s)) None = None"
  proof (intro allI impI)
    fix j assume "j < length pre"
    then have "re_match db p (drop (Suc j) ((c # pre) @ s)) None = None"
      using Cons.prems(1) by (metis Suc_less_eq length_Cons)
    then show "re_match db p (drop j (pre @ s)) None = None" by simp
  qed
  ultimately show ?case
    using Cons.IH Cons.prems(2) by simp
qed

lemma re_search_miss:
  assumes "\<forall>j\<le>length t. re_match db p (drop j t) None = None"
  shows "re_search db p t = None"
  using assms
proof (induction t)
  case Nil
  then show ?case by simp
next
  case (Cons c t)
  have "re_match db p (c # t) None = None"
    using Cons.prems by (auto dest: spec[of _ 0])
  moreover have "\<forall>j\<le>length t. re_match db p (drop j t) None = None"
  proof (intro allI impI)
    fix j assume "j \<le> length t"
    then have "re_match db p (drop (Suc j) (c # t)) None = None"
      using Cons.prems by (metis Suc_le_mono length_Cons)
    then show "re_match db p (drop j t) None = None" by simp
  qed
  ultimately show ?case
    using Cons.IH by simp
qed

lemma read_from_start: "fst (read (seek f 0)) = stream f"
  by (simp add: read_def seek_def)


lemma extract_user_eq:
  "fst (extract_user_from_yaml db f) =
     (case utf8_decode (stream f) of
        Inl e \<Rightarrow> None
      | Inr t \<Rightarrow> (case re_search db user_pattern t of Some g \<Rightarrow> g | None \<Rightarrow> None))"
  by (simp add: extract_user_from_yaml_def read_def seek_def Let_def
        split: sum.splits option.splits)

lemma extract_port_eq:
  "fst (extract_port_from_yaml db f) =
     (case utf8_decode (stream f) of
        Inl e \<Rightarrow> None
      | Inr t \<Rightarrow>
          (case re_search db port_pattern t of
             Some (Some g) \<Rightarrow> (case py_int db g of Inl e \<Rightarrow> None | Inr n \<Rightarrow> Some n)
           | _ \<Rightarrow> None))"
  by (simp add: extract_port_from_yaml_def read_def seek_def Let_def
        split: sum.splits option.splits)

lemma no_match_None:
  "(\<And>y. re_match db p s None = Some y \<Longrightarrow> False) \<Longrightarrow> re_match db p s None = None"
  by (cases "re_match db p s None") auto

lemma user_field_at_hd: "user_field_at db s \<Longrightarrow> \<exists>r. s = 99 # r"
  by (auto simp: user_field_at_def str_def)

lemma port_field_at_hd: "port_field_at db s \<Longrightarrow> \<exists>r. s = 45 # r"
  by (auto simp: port_field_at_def str_def)

lemma drop_in_prefix_hd:
  assumes "c \<notin> set pre" "j < length pre"
  shows "drop j (pre @ s) \<noteq> c # r"
proof
  assume "drop j (pre @ s) = c # r"
  then have "(pre @ s) ! j = c"
    using assms(2) by (metis Cons_nth_drop_Suc length_append list.inject trans_less_add1)
  then have "pre ! j = c"
    using assms(2) by (simp add: nth_append)
  then show False
    using assms by (metis nth_mem)
qed

lemma drop_hd_mem:
  assumes "c \<notin> set t"
  shows "drop j t \<noteq> c # r"
  using assms by (metis in_set_dropD list.set_intros(1))

lemma no_user_field_before:
  assumes "99 \<notin> set pre"
  shows "\<forall>j<length pre. \<not> user_field_at db (drop j (pre @ s))"
proof (intro allI impI notI)
  fix j assume j: "j < length pre" and "user_field_at db (drop j (pre @ s))"
  then obtain r where "drop j (pre @ s) = 99 # r"
    by (blast dest: user_field_at_hd)
  then show False
    using drop_in_prefix_hd[OF assms j] by blast
qed

lemma no_user_field_in:
  assumes "99 \<notin> set t"
  shows "\<forall>j\<le>length t. \<not> user_field_at db (drop j t)"
proof (intro allI impI notI)
  fix j assume "user_field_at db (drop j t)"
  then obtain r where "drop j t = 99 # r"
    by (blast dest: user_field_at_hd)
  then show False
    using drop_hd_mem[OF assms] by blast
qed

lemma decimal_value_snoc:
  "decimal_value db (xs @ [c]) = decimal_value db xs * 10 + digit_value db c"
  by (simp add: decimal_value_def)

lemma decimal_value_str_of_nat: "decimal_value db (str_of_nat n) = n"
proof (induction n rule: str_of_nat.induct)
  case (1 n)
  show ?case
  proof (cases "n < 10")
    case True
    then show ?thesis
      by (subst str_of_nat.simps) (simp add: decimal_value_def digit_value_def)
  next
    case False
    then have "decimal_value db (str_of_nat (n div 10)) = n div 10"
      using 1 by simp
    moreover have "n mod 10 < 10" by simp
    then have "digit_value db (48 + n mod 10) = n mod 10"
      unfolding digit_value_def by (simp del: mod_less_divisor)
    ultimately show ?thesis
      using False by (subst str_of_nat.simps) (simp add: decimal_value_snoc)
  qed
qed

lemma port_match_complete:
  assumes "list_all (is_space db) ws" "ds \<noteq> []" "list_all (is_digit db) ds"
  shows "re_match db port_pattern (str ''-'' @ ws @ ds @ str '':3000'' @ post) None
         = Some (Some ds)"
proof -
  let ?l = "str '':3000''"
  have td: "takeWhile (is_digit db) (ds @ ?l @ post) = ds"
    by (rule takeWhile_run) (use assms(3) colon_not_digit[of db] in \<open>auto simp: str_def\<close>)
  have d: "re_match db [Rep CDigit 1 True, Lit ?l] (ds @ ?l @ post) None = Some (Some ds)"
    by (rule rep_max) (use assms(2) td in \<open>auto simp: Suc_le_eq lit_ok simp del: re_match.simps(2)\<close>)
  have "\<not> is_space db (hd (ds @ ?l @ post))"
    using assms(2,3) by (cases ds) (auto dest: digit_not_space)
  then have ts: "takeWhile (is_space db) (ws @ ds @ ?l @ post) = ws"
    using assms(1) by (intro takeWhile_run) auto
  have "re_match db [Rep CSpace 0 False, Rep CDigit 1 True, Lit ?l] (ws @ ds @ ?l @ post) None
          = Some (Some ds)"
    by (rule rep_max) (use d ts in \<open>simp_all del: re_match.simps\<close>)
  then show ?thesis
    unfolding port_pattern_def by (simp only: lit_ok)
qed

lemma port_match_sound:
  assumes "re_match db port_pattern s None = Some y"
  shows "port_field_at db s"
proof -
  let ?l1 = "str ''-''" and ?l2 = "str '':3000''"
  from assms obtain s1 where s: "s = ?l1 @ s1"
    and m1: "re_match db [Rep CSpace 0 False, Rep CDigit 1 True, Lit ?l2] s1 None = Some y"
    unfolding port_pattern_def by (blast dest: lit_sound)
  from rep_sound[OF m1] obtain k where k: "k \<le> length (takeWhile (is_space db) s1)"
    and m2: "re_match db [Rep CDigit 1 True, Lit ?l2] (drop k s1) None = Some y"
    by auto
  from rep_sound[OF m2] obtain j where j: "1 \<le> j" "j \<le> length (takeWhile (is_digit db) (drop k s1))"
    and m3: "re_match db [Lit ?l2] (drop j (drop k s1)) (Some (take j (drop k s1))) = Some y"
    by auto
  from lit_sound[OF m3] obtain s3 where s3: "drop j (drop k s1) = ?l2 @ s3"
    by blast
  have "s1 = take k s1 @ take j (drop k s1) @ ?l2 @ s3"
    using s3 by (metis append_take_drop_id)
  moreover have "list_all (is_space db) (take k s1)"
    using k by (rule take_takeWhile_all)
  moreover have "list_all (is_digit db) (take j (drop k s1))"
    using j(2) by (rule take_takeWhile_all)
  moreover have "take j (drop k s1) \<noteq> []"
    using j by (auto simp: take_eq_Nil)
  ultimately show ?thesis
    unfolding port_field_at_def using s by blast
qed

lemma no_port_field_before:
  assumes "45 \<notin> set pre"
  shows "\<forall>j<length pre. \<not> port_field_at db (drop j (pre @ s))"
proof (intro allI impI notI)
  fix j assume j: "j < length pre" and "port_field_at db (drop j (pre @ s))"
  then obtain r where "drop j (pre @ s) = 45 # r"
    by (blast dest: port_field_at_hd)
  then show False
    using drop_in_prefix_hd[OF assms j] by blast
qed

lemma no_port_field_in:
  assumes "45 \<notin> set t"
  shows "\<forall>j\<le>length t. \<not> port_field_at db (drop j t)"
proof (intro allI impI notI)
  fix j assume "port_field_at db (drop j t)"
  then obtain r where "drop j t = 45 # r"
    by (blast dest: port_field_at_hd)
  then show False
    using drop_hd_mem[OF assms] by blast
qed


text \<open>
  Claim C2.  Identity extraction works on the UTF-8 text of the manifest.  When the bytes
  decode and their text holds the field \<open>container_name: webtop-ubuntu-xfce-<token>\<close> (any
  white space, also none, after the colon; the token is the whole run of word characters)
  and no field starts further left, the result is exactly that token.  When the bytes do not
  decode, whatever they hold, or their text holds no such field at any position, the result
  is \<open>None\<close>.  No exception leaves the function: its result is a value in every case.
\<close>

theorem extract_user_from_yaml_spec:
  "(utf8_decode (stream f)
      = Inr (pre @ str ''container_name:'' @ ws @ str ''webtop-ubuntu-xfce-'' @ tok @ post)
    \<and> list_all (is_space db) ws \<and> tok \<noteq> [] \<and> list_all (is_word db) tok
    \<and> (post = [] \<or> \<not> is_word db (hd post))
    \<and> (\<forall>j<length pre. \<not> user_field_at db
          (drop j (pre @ str ''container_name:'' @ ws @ str ''webtop-ubuntu-xfce-'' @ tok @ post)))
    \<longrightarrow> fst (extract_user_from_yaml db f) = Some tok)
   \<and> ((\<forall>t. utf8_decode (stream f) = Inr t \<longrightarrow> (\<forall>j\<le>length t. \<not> user_field_at db (drop j t)))
    \<longrightarrow> fst (extract_user_from_yaml db f) = None)"
proof (intro conjI impI)
  let ?s = "str ''container_name:'' @ ws @ str ''webtop-ubuntu-xfce-'' @ tok @ post"
  assume a: "utf8_decode (stream f) = Inr (pre @ ?s)
    \<and> list_all (is_space db) ws \<and> tok \<noteq> [] \<and> list_all (is_word db) tok
    \<and> (post = [] \<or> \<not> is_word db (hd post))
    \<and> (\<forall>j<length pre. \<not> user_field_at db (drop j (pre @ ?s)))"
  then have here: "re_match db user_pattern ?s None = Some (Some tok)"
    by (intro user_match_complete) simp_all
  have "\<forall>j<length pre. re_match db user_pattern (drop j (pre @ ?s)) None = None"
    using a by (auto intro!: no_match_None dest: user_match_sound)
  then have "re_search db user_pattern (pre @ ?s) = Some (Some tok)"
    using here by (rule re_search_hit)
  then show "fst (extract_user_from_yaml db f) = Some tok"
    using a by (simp add: extract_user_eq)
next
  assume a: "\<forall>t. utf8_decode (stream f) = Inr t \<longrightarrow> (\<forall>j\<le>length t. \<not> user_field_at db (drop j t))"
  show "fst (extract_user_from_yaml db f) = None"
  proof (cases "utf8_decode (stream f)")
    case (Inl e)
    then show ?thesis by (simp add: extract_user_eq)
  next
    case (Inr t)
    then have "\<forall>j\<le>length t. re_match db user_pattern (drop j t) None = None"
      using a by (auto intro!: no_match_None dest: user_match_sound)
    then have "re_search db user_pattern t = None"
      by (rule re_search_miss)
    then show ?thesis using Inr by (simp add: extract_user_eq)
  qed
qed

theorem extract_user_from_yaml_spec_witness:
  "fst (extract_user_from_yaml (\<lambda>c. UOther)
          \<lparr>filename = None,
           stream = ''# demo'' @ [CHR 0x0A] @ ''container_name:  webtop-ubuntu-xfce-bob_2''
                    @ [CHR 0x0A],
           pos = 0\<rparr>) = Some (str ''bob_2'')
   \<and> fst (extract_user_from_yaml (\<lambda>c. UOther)
          \<lparr>filename = None, stream = ''image: nginx'', pos = 0\<rparr>) = None"
proof
  let ?db = "(\<lambda>c. UOther) :: unicode_db"
  let ?f = "\<lparr>filename = None,
           stream = ''# demo'' @ [CHR 0x0A] @ ''container_name:  webtop-ubuntu-xfce-bob_2''
                    @ [CHR 0x0A],
           pos = 0\<rparr>"
  let ?pre = "str ''# demo'' @ [10]"
  let ?s = "str ''container_name:'' @ str ''  '' @ str ''webtop-ubuntu-xfce-'' @ str ''bob_2'' @ [10]"
  have d: "utf8_decode (stream ?f) = Inr (?pre @ ?s)"
    by code_simp
  have "99 \<notin> set ?pre" by code_simp
  then have first: "\<forall>j<length ?pre. \<not> user_field_at ?db (drop j (?pre @ ?s))"
    by (rule no_user_field_before)
  have c1: "list_all (is_space ?db) (str ''  '')" by code_simp
  have c2: "str ''bob_2'' \<noteq> []" by code_simp
  have c3: "list_all (is_word ?db) (str ''bob_2'')" by code_simp
  have c4: "[10] = [] \<or> \<not> is_word ?db (hd [10::nat])" by code_simp
  show "fst (extract_user_from_yaml ?db ?f) = Some (str ''bob_2'')"
    by (rule extract_user_from_yaml_spec [of ?f ?pre "str ''  ''" "str ''bob_2''" "[10]" ?db,
          THEN conjunct1, THEN mp])
       (intro conjI d first c1 c2 c3 c4)
next
  let ?db = "(\<lambda>c. UOther) :: unicode_db"
  let ?g = "\<lparr>filename = None, stream = ''image: nginx'', pos = 0\<rparr>"
  have d: "utf8_decode (stream ?g) = Inr (str ''image: nginx'')"
    by code_simp
  have "99 \<notin> set (str ''image: nginx'')" by code_simp
  then have none: "\<forall>j\<le>length (str ''image: nginx''). \<not> user_field_at ?db (drop j (str ''image: nginx''))"
    by (rule no_user_field_in)
  have "\<forall>t. utf8_decode (stream ?g) = Inr t \<longrightarrow> (\<forall>j\<le>length t. \<not> user_field_at ?db (drop j t))"
  proof (intro allI impI)
    fix t j assume "utf8_decode (stream ?g) = Inr t" and j: "j \<le> length t"
    then have t: "t = str ''image: nginx''"
      by (simp only: d sum.inject)
    show "\<not> user_field_at ?db (drop j t)"
      using none j unfolding t by blast
  qed
  then show "fst (extract_user_from_yaml ?db ?g) = None"
    by (rule extract_user_from_yaml_spec [of ?g _ _ _ _ ?db, THEN conjunct2, THEN mp])
qed


text \<open>
  A manifest that holds the field and, after it, one byte that is not UTF-8: the text is never
  searched, the result is \<open>None\<close>.
\<close>

theorem extract_user_from_yaml_counterexample:
  "fst (extract_user_from_yaml (\<lambda>c. UOther)
          \<lparr>filename = None,
           stream = ''container_name: webtop-ubuntu-xfce-bob'' @ [CHR 0x0A, CHR 0xFF],
           pos = 0\<rparr>) = None"
  by code_simp


lemma extract_port_first_match:
  assumes "utf8_decode (stream f) = Inr (pre @ str ''-'' @ ws @ ds @ str '':3000'' @ post)"
    and "list_all (is_space db) ws" and "ds \<noteq> []" and "list_all (is_digit db) ds"
    and "\<forall>j<length pre.
           \<not> port_field_at db (drop j (pre @ str ''-'' @ ws @ ds @ str '':3000'' @ post))"
  shows "fst (extract_port_from_yaml db f) =
           (if length ds \<le> 4300 then Some (int (decimal_value db ds)) else None)"
proof -
  let ?s = "str ''-'' @ ws @ ds @ str '':3000'' @ post"
  have here: "re_match db port_pattern ?s None = Some (Some ds)"
    using assms by (intro port_match_complete) simp_all
  have "\<forall>j<length pre. re_match db port_pattern (drop j (pre @ ?s)) None = None"
    using assms(5) by (auto intro!: no_match_None dest: port_match_sound)
  then have "re_search db port_pattern (pre @ ?s) = Some (Some ds)"
    using here by (rule re_search_hit)
  then show ?thesis
    using assms by (simp add: extract_port_eq py_int_def int_max_str_digits_def)
qed

lemma utf8_dec_ascii: "list_all (\<lambda>b. b < 128) bs \<Longrightarrow> utf8_dec bs = Some bs"
  by (induction bs) simp_all

text \<open>
  Claim C3.  Port extraction works on the UTF-8 text of the manifest.  When the bytes decode
  and their text holds a port mapping \<open>- <N>:3000\<close> (any white space, also none, after the
  dash) and no port mapping starts further left, the result is the integer that the digits
  \<open>N\<close> denote in base ten if they are at most 4300, and \<open>None\<close> if they are more: the
  interpreter refuses to convert a longer numeral.  The decimal numeral of a number \<open>n\<close>
  denotes \<open>n\<close>.  When the bytes hold no such mapping at any position of their text, or are
  malformed and do not decode, the result is \<open>None\<close>.  No exception leaves the function.
\<close>

theorem extract_port_from_yaml_spec:
  "(utf8_decode (stream f) = Inr (pre @ str ''-'' @ ws @ ds @ str '':3000'' @ post)
    \<and> list_all (is_space db) ws \<and> ds \<noteq> [] \<and> list_all (is_digit db) ds
    \<and> (\<forall>j<length pre. \<not> port_field_at db (drop j (pre @ str ''-'' @ ws @ ds @ str '':3000'' @ post)))
    \<longrightarrow> fst (extract_port_from_yaml db f) =
          (if length ds \<le> 4300 then Some (int (decimal_value db ds)) else None))
   \<and> ((\<forall>t. utf8_decode (stream f) = Inr t \<longrightarrow> (\<forall>j\<le>length t. \<not> port_field_at db (drop j t)))
    \<longrightarrow> fst (extract_port_from_yaml db f) = None)
   \<and> decimal_value db (str_of_nat n) = n"
proof (intro conjI impI)
  let ?s = "str ''-'' @ ws @ ds @ str '':3000'' @ post"
  assume a: "utf8_decode (stream f) = Inr (pre @ ?s)
    \<and> list_all (is_space db) ws \<and> ds \<noteq> [] \<and> list_all (is_digit db) ds
    \<and> (\<forall>j<length pre. \<not> port_field_at db (drop j (pre @ ?s)))"
  then have "utf8_decode (stream f) = Inr (pre @ ?s)" "list_all (is_space db) ws"
    "ds \<noteq> []" "list_all (is_digit db) ds"
    "\<forall>j<length pre. \<not> port_field_at db (drop j (pre @ ?s))"
    by blast+
  then show "fst (extract_port_from_yaml db f) =
          (if length ds \<le> 4300 then Some (int (decimal_value db ds)) else None)"
    by (rule extract_port_first_match)
next
  assume a: "\<forall>t. utf8_decode (stream f) = Inr t \<longrightarrow> (\<forall>j\<le>length t. \<not> port_field_at db (drop j t))"
  show "fst (extract_port_from_yaml db f) = None"
  proof (cases "utf8_decode (stream f)")
    case (Inl e)
    then show ?thesis by (simp add: extract_port_eq)
  next
    case (Inr t)
    then have "\<forall>j\<le>length t. re_match db port_pattern (drop j t) None = None"
      using a by (auto intro!: no_match_None dest: port_match_sound)
    then have "re_search db port_pattern t = None"
      by (rule re_search_miss)
    then show ?thesis using Inr by (simp add: extract_port_eq)
  qed
next
  show "decimal_value db (str_of_nat n) = n"
    by (rule decimal_value_str_of_nat)
qed

theorem extract_port_from_yaml_spec_witness:
  "fst (extract_port_from_yaml (\<lambda>c. UOther)
          \<lparr>filename = None,
           stream = ''ports:'' @ [CHR 0x0A] @ ''  - 3030:3000'' @ [CHR 0x0A],
           pos = 0\<rparr>) = Some 3030
   \<and> fst (extract_port_from_yaml (\<lambda>c. UOther)
          \<lparr>filename = None, stream = ''image: nginx'', pos = 0\<rparr>) = None"
proof
  let ?db = "(\<lambda>c. UOther) :: unicode_db"
  let ?f = "\<lparr>filename = None,
           stream = ''ports:'' @ [CHR 0x0A] @ ''  - 3030:3000'' @ [CHR 0x0A],
           pos = 0\<rparr>"
  let ?pre = "str ''ports:'' @ [10] @ str ''  ''"
  let ?s = "str ''-'' @ str '' '' @ str ''3030'' @ str '':3000'' @ [10]"
  have d: "utf8_decode (stream ?f) = Inr (?pre @ ?s)"
    by code_simp
  have "45 \<notin> set ?pre" by code_simp
  then have first: "\<forall>j<length ?pre. \<not> port_field_at ?db (drop j (?pre @ ?s))"
    by (rule no_port_field_before)
  have c1: "list_all (is_space ?db) (str '' '')" by code_simp
  have c2: "str ''3030'' \<noteq> []" by code_simp
  have c3: "list_all (is_digit ?db) (str ''3030'')" by code_simp
  have v: "(if length (str ''3030'') \<le> 4300
            then Some (int (decimal_value ?db (str ''3030''))) else None) = Some 3030"
    by code_simp
  have "fst (extract_port_from_yaml ?db ?f) =
          (if length (str ''3030'') \<le> 4300
           then Some (int (decimal_value ?db (str ''3030''))) else None)"
    by (rule extract_port_from_yaml_spec [of ?f ?pre "str '' ''" "str ''3030''" "[10]" ?db,
          THEN conjunct1, THEN mp])
       (intro conjI d first c1 c2 c3)
  then show "fst (extract_port_from_yaml ?db ?f) = Some 3030"
    by (simp only: v)
next
  let ?db = "(\<lambda>c. UOther) :: unicode_db"
  let ?g = "\<lparr>filename = None, stream = ''image: nginx'', pos = 0\<rparr>"
  have d: "utf8_decode (stream ?g) = Inr (str ''image: nginx'')"
    by code_simp
  have "45 \<notin> set (str ''image: nginx'')" by code_simp
  then have none: "\<forall>j\<le>length (str ''image: nginx''). \<not> port_field_at ?db (drop j (str ''image: nginx''))"
    by (rule no_port_field_in)
  have "\<forall>t. utf8_decode (stream ?g) = Inr t \<longrightarrow> (\<forall>j\<le>length t. \<not> port_field_at ?db (drop j t))"
  proof (intro allI impI)
    fix t j assume "utf8_decode (stream ?g) = Inr t" and j: "j \<le> length t"
    then have t: "t = str ''image: nginx''"
      by (simp only: d sum.inject)
    show "\<not> port_field_at ?db (drop j t)"
      using none j unfolding t by blast
  qed
  then show "fst (extract_port_from_yaml ?db ?g) = None"
    by (rule extract_port_from_yaml_spec [of ?g _ _ _ _ ?db, THEN conjunct2, THEN conjunct1, THEN mp])
qed

text \<open>
  A port mapping of 4301 digits: the conversion is refused and the result is \<open>None\<close>, not the
  integer 0 that the digits denote.
\<close>

theorem extract_port_from_yaml_counterexample:
  "fst (extract_port_from_yaml (\<lambda>c. UOther)
          \<lparr>filename = None,
           stream = ''-'' @ replicate 4301 (CHR ''0'') @ '':3000'',
           pos = 0\<rparr>) = None"
proof -
  let ?db = "(\<lambda>c. UOther) :: unicode_db"
  let ?f = "\<lparr>filename = None,
           stream = ''-'' @ replicate 4301 (CHR ''0'') @ '':3000'',
           pos = 0\<rparr>"
  let ?ds = "replicate 4301 (48::nat)"
  have m: "map of_char (stream ?f) = [] @ str ''-'' @ [] @ ?ds @ str '':3000'' @ []"
    by (simp add: str_def)
  have "list_all (\<lambda>b. b < 128) ([] @ str ''-'' @ [] @ ?ds @ str '':3000'' @ [])"
    by (simp add: str_def list_all_iff)
  then have d: "utf8_decode (stream ?f) = Inr ([] @ str ''-'' @ [] @ ?ds @ str '':3000'' @ [])"
    unfolding utf8_decode_def m by (simp only: utf8_dec_ascii option.case)
  have "fst (extract_port_from_yaml ?db ?f) =
          (if length ?ds \<le> 4300 then Some (int (decimal_value ?db ?ds)) else None)"
    by (rule extract_port_first_match [OF d]) (simp_all add: list_all_iff is_digit_def)
  then show ?thesis
    by simp
qed

section \<open>Deploy: what is saved, where, and what the script says\<close>

lemma strip_chars_subset: "set (strip_chars cs s) \<subseteq> set s"
  unfolding strip_chars_def by (auto dest!: set_dropWhileD)

lemma rev_dropWhile_rev_prefix: "prefix (rev (dropWhile P (rev xs))) xs"
proof -
  have "rev (takeWhile P (rev xs) @ dropWhile P (rev xs)) = xs"
    by simp
  then have "rev (dropWhile P (rev xs)) @ rev (takeWhile P (rev xs)) = xs"
    by (simp only: rev_append)
  then show ?thesis
    by (metis prefixI)
qed

lemma strip_chars_hd:
  assumes "strip_chars cs s \<noteq> []"
  shows "hd (strip_chars cs s) \<notin> set cs"
proof -
  let ?d = "dropWhile (\<lambda>c. c \<in> set cs) s"
  have p: "prefix (strip_chars cs s) ?d"
    unfolding strip_chars_def by (rule rev_dropWhile_rev_prefix)
  then have "?d \<noteq> []" using assms by (metis prefix_Nil)
  then have "hd ?d \<notin> set cs"
    by (metis hd_dropWhile)
  moreover have "hd (strip_chars cs s) = hd ?d"
    using p assms by (auto simp: prefix_def)
  ultimately show ?thesis by simp
qed

lemma secure_filename_safe: "list_all safe_char (secure_filename db nf x)"
proof -
  have "set (secure_filename db nf x) \<subseteq> {c. safe_char c}"
    unfolding secure_filename_def Let_def
    using strip_chars_subset by fastforce
  then show ?thesis
    by (auto simp: list_all_iff)
qed

lemma secure_filename_hd:
  assumes "secure_filename db nf x \<noteq> []"
  shows "hd (secure_filename db nf x) \<noteq> 46"
proof -
  have "hd (secure_filename db nf x) \<notin> set (str ''._'')"
    using assms unfolding secure_filename_def Let_def by (rule strip_chars_hd)
  then show ?thesis by (simp add: str_def)
qed

lemma safe_char_not_slash: "safe_char c \<Longrightarrow> c \<noteq> 47"
  by (auto simp: safe_char_def)

lemma is_word_not_slash: "is_word db c \<Longrightarrow> c \<noteq> 47"
  by (auto simp: is_word_def split: if_splits)

lemma re_search_SomeD:
  "re_search db p t = Some g \<Longrightarrow> \<exists>j\<le>length t. re_match db p (drop j t) None = Some g"
proof (induction t)
  case Nil
  then show ?case by simp
next
  case (Cons c t)
  show ?case
  proof (cases "re_match db p (c # t) None")
    case None
    with Cons obtain j where "j \<le> length t" "re_match db p (drop j t) None = Some g"
      by auto
    then have "Suc j \<le> length (c # t) \<and> re_match db p (drop (Suc j) (c # t)) None = Some g"
      by simp
    then show ?thesis by blast
  next
    case (Some y)
    with Cons.prems have "re_match db p (drop 0 (c # t)) None = Some g"
      by simp
    then show ?thesis by blast
  qed
qed

lemma user_match_group:
  assumes "re_match db user_pattern s None = Some g"
  shows "\<exists>tok. g = Some tok \<and> tok \<noteq> [] \<and> list_all (is_word db) tok"
proof -
  let ?l1 = "str ''container_name:''" and ?l2 = "str ''webtop-ubuntu-xfce-''"
  from assms obtain s1 where
    m1: "re_match db [Rep CSpace 0 False, Lit ?l2, Rep CWord 1 True] s1 None = Some g"
    unfolding user_pattern_def by (blast dest: lit_sound)
  from rep_sound[OF m1] obtain k where
    m2: "re_match db [Lit ?l2, Rep CWord 1 True] (drop k s1) None = Some g"
    by auto
  from lit_sound[OF m2] obtain s2 where
    m3: "re_match db [Rep CWord 1 True] s2 None = Some g"
    by blast
  from rep_sound[OF m3] obtain j where j: "1 \<le> j" "j \<le> length (takeWhile (is_word db) s2)"
    and g: "g = Some (take j s2)"
    by auto
  have "list_all (is_word db) (take j s2)"
    using j(2) by (rule take_takeWhile_all)
  moreover have "take j s2 \<noteq> []"
    using j by (auto simp: take_eq_Nil)
  ultimately show ?thesis using g by blast
qed

lemma extract_user_word:
  assumes "fst (extract_user_from_yaml db f) = Some tok"
  shows "tok \<noteq> [] \<and> list_all (is_word db) tok"
proof -
  from assms obtain t where "re_search db user_pattern t = Some (Some tok)"
    by (auto simp: extract_user_eq split: sum.splits option.splits)
  then obtain j where "re_match db user_pattern (drop j t) None = Some (Some tok)"
    by (blast dest: re_search_SomeD)
  then show ?thesis
    by (auto dest: user_match_group)
qed

lemma default_user_word: "list_all (is_word db) (str ''default_user'')"
  by (simp add: str_def is_word_def)

lemma deploy_identity_word:
  "deploy_identity pf y \<noteq> [] \<and> list_all (is_word (unicode pf)) (deploy_identity pf y)"
proof (cases "fst (extract_user_from_yaml (unicode pf) y)")
  case None
  then show ?thesis
    using default_user_word[of "unicode pf"]
    by (auto simp: deploy_identity_def py_or_def str_def)
next
  case (Some tok)
  then show ?thesis
    using extract_user_word[OF Some]
    by (simp add: deploy_identity_def py_or_def)
qed

lemma suffix_single: "suffix [c] xs = (xs \<noteq> [] \<and> last xs = c)"
  by (cases xs rule: rev_cases) (auto simp: suffix_def)

lemma str_slash: "str ''/'' = [47]"
  by (simp add: str_def)

lemma UPLOAD_DIR_shape: "UPLOAD_DIR \<noteq> []" "\<not> suffix (str ''/'') UPLOAD_DIR"
  by (simp_all add: UPLOAD_DIR_def str_def suffix_single)

lemma deploy_dir_eq:
  "deploy_dir pf y = UPLOAD_DIR @ str ''/'' @ str ''webtop_'' @ deploy_identity pf y"
  unfolding deploy_dir_def path_join_def
  using UPLOAD_DIR_shape by (simp add: str_def)

lemma deploy_dir_shape: "deploy_dir pf y \<noteq> []" "\<not> suffix (str ''/'') (deploy_dir pf y)"
proof -
  show "deploy_dir pf y \<noteq> []" by (simp add: deploy_dir_eq str_def)
  have "last (deploy_dir pf y) = last (deploy_identity pf y)"
    using deploy_identity_word[of pf y] by (simp add: deploy_dir_eq)
  moreover have "last (deploy_identity pf y) \<noteq> 47"
    using deploy_identity_word[of pf y]
    by (metis is_word_not_slash last_in_set list_all_iff)
  ultimately show "\<not> suffix (str ''/'') (deploy_dir pf y)"
    by (simp add: str_slash suffix_single)
qed

lemma path_join_child:
  assumes "d \<noteq> []" "\<not> suffix (str ''/'') d" "name \<noteq> []" "hd name \<noteq> 47"
  shows "path_join d name = d @ str ''/'' @ name"
  using assms by (cases name) (auto simp: path_join_def str_def)

lemma open_w_NoneD:
  assumes "open_w t p = None"
  shows "\<not> suffix (str ''/'') p" "map_of t p \<noteq> Some Dir" "map_of t (dirname p) = Some Dir"
  using assms
  by (auto simp: open_w_def split: if_splits option.splits node.splits)

lemma saveD:
  assumes "save f p t = Inr t'"
  shows "t' = AList.update p (File (fst (read f))) t" "open_w t p = None"
  using assms by (auto simp: save_def split: option.splits)

lemma writes_inside_refl: "writes_inside pf d t t"
  by (simp add: writes_inside_def)

lemma writes_inside_trans:
  assumes "writes_inside pf d t t'" "writes_inside pf d t' t''"
  shows "writes_inside pf d t t''"
  unfolding writes_inside_def
proof
  fix p
  from assms(1) have a: "map_of t' p = map_of t p
      \<or> ((\<exists>data. map_of t' p = Some (File data)) \<and> map_of t p \<noteq> Some Dir \<and> artifact_path pf d p)"
    by (simp add: writes_inside_def)
  from assms(2) have b: "map_of t'' p = map_of t' p
      \<or> ((\<exists>data. map_of t'' p = Some (File data)) \<and> map_of t' p \<noteq> Some Dir \<and> artifact_path pf d p)"
    by (simp add: writes_inside_def)
  from a b show "map_of t'' p = map_of t p
      \<or> ((\<exists>data. map_of t'' p = Some (File data)) \<and> map_of t p \<noteq> Some Dir \<and> artifact_path pf d p)"
    by auto
qed

lemma update_file_writes_inside:
  assumes "open_w t p = None" "artifact_path pf d p"
  shows "writes_inside pf d t (AList.update p (File data) t)"
  using assms open_w_NoneD(2)[OF assms(1)]
  by (auto simp: writes_inside_def update_conv')

lemma path_join_empty:
  assumes "d \<noteq> []" "\<not> suffix (str ''/'') d"
  shows "suffix (str ''/'') (path_join d [])"
  using assms by (simp add: path_join_def str_def suffix_def)

lemma save_writes_inside:
  assumes d: "d \<noteq> []" "\<not> suffix (str ''/'') d"
    and s: "save f (path_join d (secure_filename (unicode pf) (nfkd pf) raw)) t = Inr t'"
  shows "writes_inside pf d t t'"
proof -
  let ?n = "secure_filename (unicode pf) (nfkd pf) raw"
  have o: "open_w t (path_join d ?n) = None" and t': "t' = AList.update (path_join d ?n) (File (fst (read f))) t"
    using saveD[OF s] by simp_all
  have "?n \<noteq> []"
    using open_w_NoneD(1)[OF o] path_join_empty[OF d] by auto
  then have "artifact_path pf d (path_join d ?n)"
    unfolding artifact_path_def by blast
  then show ?thesis
    unfolding t' using o by (intro update_file_writes_inside)
qed

lemma save_uploads_writes_inside:
  assumes d: "d \<noteq> []" "\<not> suffix (str ''/'') d"
  shows "save_uploads pf files d kp stem keys (t, saved, n) = (e, t', saved', n')
           \<Longrightarrow> writes_inside pf d t t'"
proof (induction keys arbitrary: t saved n)
  case Nil
  then show ?case by (simp add: writes_inside_refl)
next
  case (Cons key keys)
  show ?case
  proof (cases "prefix kp key")
    case False
    then show ?thesis using Cons by simp
  next
    case True
    show ?thesis
    proof (cases "map_of files key")
      case None
      then show ?thesis using Cons.prems True by (simp add: writes_inside_refl)
    next
      case (Some upload)
      let ?p = "path_join d (secure_filename (unicode pf) (nfkd pf)
                  (py_or (filename upload) (stem @ str_of_nat (n + 1))))"
      show ?thesis
      proof (cases "save upload ?p t")
        case (Inl x)
        then show ?thesis using Cons.prems True Some by (simp add: writes_inside_refl Let_def)
      next
        case (Inr t1)
        have w1: "writes_inside pf d t t1"
          using d Inr by (rule save_writes_inside)
        have "save_uploads pf files d kp stem keys
                (t1, saved @ [secure_filename (unicode pf) (nfkd pf)
                  (py_or (filename upload) (stem @ str_of_nat (n + 1)))], n + 1)
              = (e, t', saved', n')"
          using Cons.prems True Some Inr by (simp add: Let_def)
        then have "writes_inside pf d t1 t'"
          by (rule Cons.IH)
        with w1 show ?thesis by (rule writes_inside_trans)
      qed
    qed
  qed
qed

lemma write_textD:
  assumes "write_text t p chunks = (e, t')"
  shows "(open_w t p \<noteq> None \<and> t' = t \<and> e = open_w t p)
         \<or> (open_w t p = None \<and> t' = AList.update p (File (fst (encode_chunks chunks))) t
             \<and> e = snd (encode_chunks chunks))"
  using assms by (auto simp: write_text_def split: option.splits prod.splits)

lemma write_text_writes_inside:
  assumes d: "d \<noteq> []" "\<not> suffix (str ''/'') d"
    and wt: "write_text t (path_join d (str ''run.sh'')) chunks = (e, t')"
  shows "writes_inside pf d t t'"
proof -
  have "artifact_path pf d (path_join d (str ''run.sh''))"
    unfolding artifact_path_def by (rule exI[of _ "str ''run.sh''"]) (simp add: str_def)
  then show ?thesis
    using write_textD[OF wt] by (auto intro: update_file_writes_inside writes_inside_refl)
qed

lemma store_artifacts_okD:
  assumes "store_artifacts pf files yf yn wid d t = (None, t', ds, rs)"
  shows "\<exists>t1 t2 t3 t4 n m.
           makedirs t d = Inr t1
         \<and> save yf (path_join d yn) t1 = Inr t2
         \<and> save_uploads pf files d (str ''dockerfile-'') (str ''Dockerfile.'')
              (sort (remdups (map fst files))) (t2, [], 0) = (None, t3, ds, n)
         \<and> save_uploads pf files d (str ''resource-'') (str ''resource_'')
              (sort (remdups (map fst files))) (t3, [], 0) = (None, t4, rs, m)
         \<and> write_text t4 (path_join d (str ''run.sh'')) (run_sh_chunks wid d yn ds) = (None, t')"
  using assms unfolding store_artifacts_def Let_def
  by (auto split: sum.splits prod.splits option.splits)

lemma store_artifacts_frame:
  assumes d: "d \<noteq> []" "\<not> suffix (str ''/'') d"
    and yn: "yn = secure_filename (unicode pf) (nfkd pf) raw"
    and st: "store_artifacts pf files yf yn wid d t = (e, t', ds, rs)"
  shows "(\<exists>x. makedirs t d = Inl x \<and> t' = t)
       \<or> (\<exists>t1. makedirs t d = Inr t1 \<and> writes_inside pf d t1 t')"
proof (cases "makedirs t d")
  case (Inl x)
  then show ?thesis using st by (simp add: store_artifacts_def)
next
  case mk: (Inr t1)
  show ?thesis
  proof (cases "save yf (path_join d yn) t1")
    case (Inl x)
    then have "t' = t1" using st mk by (simp add: store_artifacts_def)
    then show ?thesis using mk by (simp add: writes_inside_refl)
  next
    case sv: (Inr t2)
    have w12: "writes_inside pf d t1 t2"
      using d sv unfolding yn by (rule save_writes_inside)
    obtain e3 t3 ds3 n where
      u1: "save_uploads pf files d (str ''dockerfile-'') (str ''Dockerfile.'')
             (sort (remdups (map fst files))) (t2, [], 0) = (e3, t3, ds3, n)"
      by (metis prod_cases4)
    have w23: "writes_inside pf d t2 t3"
      using d u1 by (rule save_uploads_writes_inside)
    obtain e4 t4 rs4 m where
      u2: "save_uploads pf files d (str ''resource-'') (str ''resource_'')
             (sort (remdups (map fst files))) (t3, [], 0) = (e4, t4, rs4, m)"
      by (metis prod_cases4)
    have w34: "writes_inside pf d t3 t4"
      using d u2 by (rule save_uploads_writes_inside)
    obtain e5 t5 where
      wt: "write_text t4 (path_join d (str ''run.sh'')) (run_sh_chunks wid d yn ds3) = (e5, t5)"
      by (metis surj_pair)
    have w45: "writes_inside pf d t4 t5"
      using d wt by (rule write_text_writes_inside)
    have "t' = t3 \<or> t' = t4 \<or> t' = t5"
      using st mk sv u1 u2 wt unfolding store_artifacts_def Let_def
      by (auto split: option.splits)
    then have "writes_inside pf d t1 t'"
      using w12 w23 w34 w45 by (blast intro: writes_inside_trans)
    then show ?thesis using mk by blast
  qed
qed

lemma deploy_webtop_unfold:
  assumes "files \<noteq> []" "map_of files (str ''docker-compose'') = Some y" "truthy y"
  shows "deploy_webtop pf files w =
     (case store_artifacts pf files (manifest_after pf y) (manifest_name pf y)
             (deploy_identity pf y) (deploy_dir pf y) (fs w) of
        (Some e, (t, ds, rs)) \<Rightarrow>
          (deploy_failed e (deploy_identity pf y) (deploy_dir pf y), w\<lparr>fs := t\<rparr>)
      | (None, (t, ds, rs)) \<Rightarrow>
          (case popen pf (w\<lparr>fs := t\<rparr>) (launch (deploy_dir pf y)) of
             Inl e \<Rightarrow> (deploy_failed e (deploy_identity pf y) (deploy_dir pf y), w\<lparr>fs := t\<rparr>)
           | Inr pid \<Rightarrow>
               (deploy_ok (deploy_identity pf y) (deploy_dir pf y) (deploy_port pf y)
                  (manifest_name pf y) ds rs pid,
                w\<lparr>fs := t, calls := calls w @ [launch (deploy_dir pf y)]\<rparr>)))"
  using assms
  by (simp add: deploy_webtop_def deploy_dir_def deploy_identity_def manifest_name_def
        deploy_ok_def manifest_after_def deploy_port_def launch_def Let_def case_prod_beta
      split: option.split sum.split)

lemma deploy_webtop_early:
  assumes "files = [] \<or> map_of files (str ''docker-compose'') = None
           \<or> (\<exists>y. map_of files (str ''docker-compose'') = Some y \<and> \<not> truthy y)"
  shows "snd (deploy_webtop pf files w) = w \<and> snd (fst (deploy_webtop pf files w)) = 400"
  using assms by (auto simp: deploy_webtop_def missing_compose_def)

lemma deploy_failed_code: "snd (deploy_failed e i d) = 500"
  by (simp add: deploy_failed_def)

lemma deploy_webtop_fs:
  assumes "deploy_webtop pf files w = (r, w')"
  shows "w' = w
       \<or> (\<exists>y e ds rs. map_of files (str ''docker-compose'') = Some y
            \<and> store_artifacts pf files (manifest_after pf y) (manifest_name pf y)
                 (deploy_identity pf y) (deploy_dir pf y) (fs w) = (e, fs w', ds, rs))"
proof (cases "files \<noteq> [] \<and> (\<exists>y. map_of files (str ''docker-compose'') = Some y \<and> truthy y)")
  case False
  then have "files = [] \<or> map_of files (str ''docker-compose'') = None
           \<or> (\<exists>y. map_of files (str ''docker-compose'') = Some y \<and> \<not> truthy y)"
    by (cases "map_of files (str ''docker-compose'')") auto
  from deploy_webtop_early[OF this, of pf w] assms show ?thesis by simp
next
  case True
  then obtain y where y: "files \<noteq> []" "map_of files (str ''docker-compose'') = Some y" "truthy y"
    by blast
  obtain e t ds rs where st: "store_artifacts pf files (manifest_after pf y) (manifest_name pf y)
                 (deploy_identity pf y) (deploy_dir pf y) (fs w) = (e, t, ds, rs)"
    by (metis prod_cases4)
  have "fs w' = t"
    using assms unfolding deploy_webtop_unfold[OF y] st
    by (cases e; cases "popen pf (w\<lparr>fs := t\<rparr>) (launch (deploy_dir pf y))") auto
  then show ?thesis using y(2) st by blast
qed

lemma deploy_webtop_okE:
  assumes "deploy_webtop pf files w = (r, w')" and "snd r = 200"
  obtains y t ds rs pid where
    "map_of files (str ''docker-compose'') = Some y"
    "truthy y"
    "store_artifacts pf files (manifest_after pf y) (manifest_name pf y)
       (deploy_identity pf y) (deploy_dir pf y) (fs w) = (None, t, ds, rs)"
    "popen pf (w\<lparr>fs := t\<rparr>) (launch (deploy_dir pf y)) = Inr pid"
    "r = deploy_ok (deploy_identity pf y) (deploy_dir pf y) (deploy_port pf y)
           (manifest_name pf y) ds rs pid"
    "w' = w\<lparr>fs := t, calls := calls w @ [launch (deploy_dir pf y)]\<rparr>"
proof (cases "files \<noteq> [] \<and> (\<exists>y. map_of files (str ''docker-compose'') = Some y \<and> truthy y)")
  case False
  then have "files = [] \<or> map_of files (str ''docker-compose'') = None
           \<or> (\<exists>y. map_of files (str ''docker-compose'') = Some y \<and> \<not> truthy y)"
    by (cases "map_of files (str ''docker-compose'')") auto
  from deploy_webtop_early[OF this, of pf w] assms show ?thesis by simp
next
  case True
  then obtain y where y: "files \<noteq> []" "map_of files (str ''docker-compose'') = Some y" "truthy y"
    by blast
  obtain e t ds rs where st: "store_artifacts pf files (manifest_after pf y) (manifest_name pf y)
                 (deploy_identity pf y) (deploy_dir pf y) (fs w) = (e, t, ds, rs)"
    by (metis prod_cases4)
  show ?thesis
  proof (cases e)
    case (Some x)
    then show ?thesis
      using assms unfolding deploy_webtop_unfold[OF y] st by (auto simp: deploy_failed_def)
  next
    case None
    show ?thesis
    proof (cases "popen pf (w\<lparr>fs := t\<rparr>) (launch (deploy_dir pf y))")
      case (Inl x)
      then show ?thesis
        using assms None unfolding deploy_webtop_unfold[OF y] st by (auto simp: deploy_failed_def)
    next
      case (Inr pid)
      have "r = deploy_ok (deploy_identity pf y) (deploy_dir pf y) (deploy_port pf y)
           (manifest_name pf y) ds rs pid"
        and "w' = w\<lparr>fs := t, calls := calls w @ [launch (deploy_dir pf y)]\<rparr>"
        using assms(1) None Inr unfolding deploy_webtop_unfold[OF y] st by simp_all
      then show ?thesis
        using that[OF y(2,3) st[unfolded None] Inr] by blast
    qed
  qed
qed

lemma mkdir_chain_frame:
  "mkdir_chain qs t = Inr t' \<Longrightarrow>
     map_of t' p = map_of t p \<or> (map_of t p = None \<and> map_of t' p = Some Dir \<and> p \<in> set qs)"
proof (induction qs arbitrary: t)
  case Nil
  then show ?case by simp
next
  case (Cons q qs)
  show ?case
  proof (cases "map_of t q")
    case None
    then have "mkdir_chain qs (AList.update q Dir t) = Inr t'"
      using Cons.prems by simp
    from Cons.IH[OF this] show ?thesis
      using None by (cases "p = q") (auto simp: update_conv')
  next
    case (Some nd)
    then show ?thesis
      using Cons by (cases nd) auto
  qed
qed

lemma mkdir_chain_dirs:
  "mkdir_chain qs t = Inr t' \<Longrightarrow> q \<in> set qs \<Longrightarrow> map_of t' q = Some Dir"
proof (induction qs arbitrary: t)
  case Nil
  then show ?case by simp
next
  case (Cons a qs)
  show ?case
  proof (cases "map_of t a")
    case None
    then have m: "mkdir_chain qs (AList.update a Dir t) = Inr t'"
      using Cons.prems by simp
    show ?thesis
    proof (cases "q \<in> set qs")
      case True
      with m show ?thesis by (rule Cons.IH)
    next
      case False
      then have "q = a" using Cons.prems by simp
      then show ?thesis
        using mkdir_chain_frame[OF m, of a] by (auto simp: update_conv')
    qed
  next
    case (Some nd)
    show ?thesis
    proof (cases nd)
      case Dir
      then have m: "mkdir_chain qs t = Inr t'"
        using Cons.prems Some by simp
      show ?thesis
      proof (cases "q \<in> set qs")
        case True
        with m show ?thesis by (rule Cons.IH)
      next
        case False
        then have "q = a" using Cons.prems by simp
        then show ?thesis
          using mkdir_chain_frame[OF m, of a] Some Dir by auto
      qed
    next
      case (File b)
      then show ?thesis using Cons.prems Some by simp
    qed
  qed
qed

lemma makedirs_created:
  assumes "makedirs t d = Inr t'"
  shows "map_of t' d = Some Dir"
proof -
  have "d \<in> set (path_prefixes d)" by (simp add: path_prefixes_def)
  with assms show ?thesis
    unfolding makedirs_def by (rule mkdir_chain_dirs)
qed

lemma makedirs_frame:
  "makedirs t d = Inr t' \<Longrightarrow>
     map_of t' p = map_of t p
     \<or> (map_of t p = None \<and> map_of t' p = Some Dir \<and> p \<in> set (path_prefixes d))"
  unfolding makedirs_def by (rule mkdir_chain_frame)

lemma writes_inside_Dir:
  "writes_inside pf d t t' \<Longrightarrow> map_of t q = Some Dir \<Longrightarrow> map_of t' q = Some Dir"
  unfolding writes_inside_def by (metis node.distinct(1) option.inject)

lemma save_uploads_names:
  "save_uploads pf files d kp stem keys (t, saved, n) = (None, t', saved', n')
     \<Longrightarrow> saved' = saved @ upload_names pf files kp stem keys n"
proof (induction keys arbitrary: t saved n)
  case Nil
  then show ?case by simp
next
  case (Cons key keys)
  show ?case
  proof (cases "prefix kp key")
    case False
    then show ?thesis using Cons by simp
  next
    case True
    show ?thesis
    proof (cases "map_of files key")
      case None
      then show ?thesis using Cons.prems True by simp
    next
      case (Some upload)
      let ?n = "secure_filename (unicode pf) (nfkd pf)
                  (py_or (filename upload) (stem @ str_of_nat (n + 1)))"
      show ?thesis
      proof (cases "save upload (path_join d ?n) t")
        case (Inl x)
        then show ?thesis using Cons.prems True Some by (simp add: Let_def)
      next
        case (Inr t1)
        have "save_uploads pf files d kp stem keys (t1, saved @ [?n], n + 1)
              = (None, t', saved', n')"
          using Cons.prems True Some Inr by (simp add: Let_def)
        from Cons.IH[OF this] show ?thesis
          using True Some by simp
      qed
    qed
  qed
qed

lemma upload_names_length:
  assumes "\<forall>k\<in>set keys. map_of files k \<noteq> None"
  shows "length (upload_names pf files kp stem keys n) = length (filter (prefix kp) keys)"
  using assms by (induction keys arbitrary: n) (auto split: option.splits)

lemma request_keys_present:
  "\<forall>k\<in>set (sort (remdups (map fst files))). map_of files k \<noteq> None"
  by (auto simp: map_of_eq_None_iff)

lemma build_chunks_blocks:
  "build_chunks wid i ds
     = concat (map (\<lambda>(j, f). build_block wid j f) (zip [i ..< i + length ds] ds))"
proof (induction ds arbitrary: i)
  case Nil
  then show ?case by simp
next
  case (Cons f ds)
  have "[i ..< i + length (f # ds)] = i # [Suc i ..< Suc i + length ds]"
    using upt_conv_Cons[of i "i + length (f # ds)"] by simp
  then show ?case
    using Cons[of "Suc i"] by (simp add: build_block_def image_tag_def Let_def)
qed

lemma run_sh_chunks_structure:
  "run_sh_chunks wid d yn ds
     = script_head wid d (ds \<noteq> [])
       @ concat (map (\<lambda>(j, f). build_block wid j f) (zip [1 ..< Suc (length ds)] ds))
       @ launch_block wid yn"
  using build_chunks_blocks[of wid 1 ds]
  by (simp add: run_sh_chunks_def script_head_def launch_block_def)

lemma utf8_encode_append:
  "utf8_encode (a @ b) =
     (case utf8_encode a of
        Inl e \<Rightarrow> Inl e
      | Inr x \<Rightarrow> (case utf8_encode b of Inl e \<Rightarrow> Inl e | Inr y \<Rightarrow> Inr (x @ y)))"
  by (induction a) (auto split: option.splits sum.splits)

lemma encode_chunks_concat:
  "encode_chunks cs = (data, None) \<Longrightarrow> utf8_encode (concat cs) = Inr data"
  by (induction cs arbitrary: data)
     (auto simp: utf8_encode_append split: sum.splits prod.splits)

lemma write_text_okD:
  assumes "write_text t p chunks = (None, t')"
  shows "t' = AList.update p (File (fst (encode_chunks chunks))) t"
    and "utf8_encode (concat chunks) = Inr (fst (encode_chunks chunks))"
    and "open_w t p = None"
proof -
  from write_textD[OF assms] have o: "open_w t p = None"
    and t': "t' = AList.update p (File (fst (encode_chunks chunks))) t"
    and e: "snd (encode_chunks chunks) = None"
    by auto
  show "t' = AList.update p (File (fst (encode_chunks chunks))) t" by (rule t')
  show "open_w t p = None" by (rule o)
  have "encode_chunks chunks = (fst (encode_chunks chunks), None)"
    using e by (metis prod.collapse)
  then show "utf8_encode (concat chunks) = Inr (fst (encode_chunks chunks))"
    by (rule encode_chunks_concat)
qed

lemma encodable_append [simp]: "encodable (a @ b) = (encodable a \<and> encodable b)"
  by (simp add: encodable_def)

lemma encodable_small: "list_all (\<lambda>c. c < 256) s \<Longrightarrow> encodable s"
  by (induction s) (auto simp: encodable_def)

lemma encodable_str [simp]: "encodable (str s)"
  by (rule encodable_small) (simp add: str_def list_all_iff)

lemma encodable_NL_SQ [simp]: "encodable NL" "encodable SQ"
  by (simp_all add: encodable_def NL_def SQ_def)

lemma encodable_str_of_nat [simp]: "encodable (str_of_nat n)"
proof (induction n rule: str_of_nat.induct)
  case (1 n)
  show ?case
  proof (cases "n < 10")
    case True
    then show ?thesis
      by (subst str_of_nat.simps) (simp add: encodable_def)
  next
    case False
    have "n mod 10 < 10" by simp
    then have "encodable [48 + n mod 10]"
      unfolding encodable_def by (simp del: mod_less_divisor)
    then show ?thesis
      using False 1 by (subst str_of_nat.simps) simp
  qed
qed

lemma utf8_encode_ok: "encodable s \<Longrightarrow> \<exists>b. utf8_encode s = Inr b"
  by (induction s) (auto simp: encodable_def simp del: utf8_enc1.simps)

lemma encode_chunks_ok: "list_all encodable cs \<Longrightarrow> snd (encode_chunks cs) = None"
proof (induction cs)
  case Nil
  then show ?case by simp
next
  case (Cons c cs)
  then obtain b where "utf8_encode c = Inr b"
    using utf8_encode_ok by auto
  then show ?case using Cons by (simp add: case_prod_beta)
qed

lemma build_chunks_encodable:
  "encodable wid \<Longrightarrow> list_all encodable ds \<Longrightarrow> list_all encodable (build_chunks wid i ds)"
  by (induction ds arbitrary: i) (simp_all add: Let_def)

lemma run_sh_chunks_encodable:
  assumes "encodable wid" "encodable d" "encodable yn" "list_all encodable ds"
  shows "list_all encodable (run_sh_chunks wid d yn ds)"
  using assms build_chunks_encodable[of wid ds 1] by (simp add: run_sh_chunks_def)

lemma saveI: "open_w t p = None \<Longrightarrow> save f p t = Inr (AList.update p (File (fst (read f))) t)"
  by (simp add: save_def)

lemma save_uploads_skip:
  "\<forall>k\<in>set keys. \<not> prefix kp k \<Longrightarrow>
     save_uploads pf files d kp stem keys (t, saved, n) = (None, t, saved, n)"
  by (induction keys) auto

lemma store_artifacts_okI:
  assumes "makedirs t d = Inr t1"
    and "save yf (path_join d yn) t1 = Inr t2"
    and "save_uploads pf files d (str ''dockerfile-'') (str ''Dockerfile.'')
           (sort (remdups (map fst files))) (t2, [], 0) = (None, t3, ds, n)"
    and "save_uploads pf files d (str ''resource-'') (str ''resource_'')
           (sort (remdups (map fst files))) (t3, [], 0) = (None, t4, rs, m)"
    and "open_w t4 (path_join d (str ''run.sh'')) = None"
    and "snd (encode_chunks (run_sh_chunks wid d yn ds)) = None"
  shows "store_artifacts pf files yf yn wid d t
           = (None,
              AList.update (path_join d (str ''run.sh''))
                (File (fst (encode_chunks (run_sh_chunks wid d yn ds)))) t4,
              ds, rs)"
  using assms by (simp add: store_artifacts_def write_text_def case_prod_beta)

lemma deploy_webtop_okI:
  assumes "files \<noteq> []" "map_of files (str ''docker-compose'') = Some y" "truthy y"
    and "store_artifacts pf files (manifest_after pf y) (manifest_name pf y)
           (deploy_identity pf y) (deploy_dir pf y) (fs w) = (None, t, ds, rs)"
    and "popen pf (w\<lparr>fs := t\<rparr>) (launch (deploy_dir pf y)) = Inr pid"
  shows "deploy_webtop pf files w
           = (deploy_ok (deploy_identity pf y) (deploy_dir pf y) (deploy_port pf y)
                (manifest_name pf y) ds rs pid,
              w\<lparr>fs := t, calls := calls w @ [launch (deploy_dir pf y)]\<rparr>)"
  using assms(4,5) unfolding deploy_webtop_unfold[OF assms(1-3)] by simp

lemma scenario_parts:
  "scenario_request \<noteq> []"
  "map_of scenario_request (str ''docker-compose'') = Some scenario_yaml"
  "truthy scenario_yaml"
  "sort (remdups (map fst scenario_request)) = [str ''docker-compose'']"
  by code_simp+

lemma scenario_inspect:
  "deploy_identity (scenario_platform pid) scenario_yaml = str ''bob''"
  "deploy_dir (scenario_platform pid) scenario_yaml = scenario_dir"
  "manifest_name (scenario_platform pid) scenario_yaml = str ''docker-compose.yaml''"
  "deploy_port (scenario_platform pid) scenario_yaml = None"
  "fst (read (manifest_after (scenario_platform pid) scenario_yaml)) = scenario_manifest"
  by code_simp+

lemma scenario_fs_steps:
  "makedirs (fs scenario_world) scenario_dir = Inr (fs scenario_world @ [(scenario_dir, Dir)])"
  "path_join scenario_dir (str ''docker-compose.yaml'') = scenario_dir @ str ''/docker-compose.yaml''"
  "path_join scenario_dir (str ''run.sh'') = scenario_dir @ str ''/run.sh''"
  "open_w (fs scenario_world @ [(scenario_dir, Dir)]) (scenario_dir @ str ''/docker-compose.yaml'') = None"
  "open_w (AList.update (scenario_dir @ str ''/docker-compose.yaml'') (File scenario_manifest)
            (fs scenario_world @ [(scenario_dir, Dir)])) (scenario_dir @ str ''/run.sh'') = None"
  by code_simp+

lemma scenario_store:
  "store_artifacts (scenario_platform pid) scenario_request
     (manifest_after (scenario_platform pid) scenario_yaml) (str ''docker-compose.yaml'')
     (str ''bob'') scenario_dir (fs scenario_world)
   = (None, scenario_stored, [], [])"
proof -
  let ?pf = "scenario_platform pid"
  let ?t1 = "fs scenario_world @ [(scenario_dir, Dir)]"
  let ?t2 = "AList.update (scenario_dir @ str ''/docker-compose.yaml'') (File scenario_manifest) ?t1"
  have sv: "save (manifest_after ?pf scenario_yaml)
              (path_join scenario_dir (str ''docker-compose.yaml'')) ?t1 = Inr ?t2"
    using saveI[OF scenario_fs_steps(4), of "manifest_after ?pf scenario_yaml"]
    by (simp only: scenario_fs_steps(2) scenario_inspect(5))
  have k1: "\<forall>k\<in>set [str ''docker-compose'']. \<not> prefix (str ''dockerfile-'') k"
    and k2: "\<forall>k\<in>set [str ''docker-compose'']. \<not> prefix (str ''resource-'') k"
    by code_simp+
  have enc: "snd (encode_chunks
      (run_sh_chunks (str ''bob'') scenario_dir (str ''docker-compose.yaml'') [])) = None"
    by (intro encode_chunks_ok run_sh_chunks_encodable) (simp_all add: scenario_dir_def)
  show ?thesis
    unfolding scenario_stored_def scenario_fs_steps(3)[symmetric]
    by (rule store_artifacts_okI[OF scenario_fs_steps(1) sv _ _ _ enc])
       (simp_all only: scenario_parts(4) save_uploads_skip[OF k1] save_uploads_skip[OF k2]
          scenario_fs_steps(3) scenario_fs_steps(5))
qed

lemma scenario_deploy:
  "deploy_webtop (scenario_platform pid) scenario_request scenario_world
   = (deploy_ok (str ''bob'') scenario_dir None (str ''docker-compose.yaml'') [] [] pid,
      scenario_world\<lparr>fs := scenario_stored, calls := calls scenario_world @ [launch scenario_dir]\<rparr>)"
proof -
  have p: "popen (scenario_platform pid) (scenario_world\<lparr>fs := scenario_stored\<rparr>)
             (launch (deploy_dir (scenario_platform pid) scenario_yaml)) = Inr pid"
    by (simp add: scenario_platform_def)
  show ?thesis
    using deploy_webtop_okI[OF scenario_parts(1-3) _ p, of "[]" "[]"] scenario_store[of pid]
    by (simp only: scenario_inspect)
qed

lemma deploy_ok_fields:
  "snd (deploy_ok wid d port yn ds rs pid) = 200"
  "field (deploy_ok wid d port yn ds rs pid) ''webtop_id'' = Some (JString wid)"
  "field (deploy_ok wid d port yn ds rs pid) ''webtop_dir'' = Some (JString d)"
  "field (deploy_ok wid d port yn ds rs pid) ''port'' = Some (json_of_port port)"
  "files_field (deploy_ok wid d port yn ds rs pid) ''yaml'' = Some (JString yn)"
  "files_field (deploy_ok wid d port yn ds rs pid) ''dockerfiles'' = Some (JList (map JString ds))"
  "files_field (deploy_ok wid d port yn ds rs pid) ''resources'' = Some (JList (map JString rs))"
  by (simp_all add: deploy_ok_def field_def files_field_def)

lemma store_artifacts_created:
  assumes d: "d \<noteq> []" "\<not> suffix (str ''/'') d"
    and yn: "yn = secure_filename (unicode pf) (nfkd pf) raw"
    and st: "store_artifacts pf files yf yn wid d t = (None, t', ds, rs)"
  shows "map_of t' d = Some Dir"
proof -
  from store_artifacts_okD[OF st] obtain t1 where mk: "makedirs t d = Inr t1"
    by blast
  from store_artifacts_frame[OF d yn st] mk have "writes_inside pf d t1 t'"
    by auto
  moreover have "map_of t1 d = Some Dir"
    using mk by (rule makedirs_created)
  ultimately show ?thesis by (rule writes_inside_Dir)
qed

text \<open>
  Claim C10.  Every successful deploy response (status 200) reports an identity that is not
  empty and consists of word characters only: it is the token that identity extraction
  captured from the manifest, or the fallback \<open>default_user\<close>.  The directory name
  \<open>webtop_<identity>\<close> therefore holds no path separator, the reported workload directory is
  \<open>UPLOAD_DIR/webtop_<identity>\<close>, a direct child of the upload root, and it stands as a
  directory in the file system that the deploy leaves.
\<close>

theorem deploy_identity_safe:
  "deploy_webtop pf files w = (r, w') \<and> snd r = 200 \<longrightarrow>
     (\<exists>wid. field r ''webtop_id'' = Some (JString wid)
        \<and> wid \<noteq> [] \<and> list_all (is_word (unicode pf)) wid
        \<and> (wid = str ''default_user''
            \<or> (\<exists>y. map_of files (str ''docker-compose'') = Some y
                  \<and> fst (extract_user_from_yaml (unicode pf) y) = Some wid))
        \<and> 47 \<notin> set (str ''webtop_'' @ wid)
        \<and> field r ''webtop_dir'' = Some (JString (UPLOAD_DIR @ str ''/'' @ str ''webtop_'' @ wid))
        \<and> map_of (fs w') (UPLOAD_DIR @ str ''/'' @ str ''webtop_'' @ wid) = Some Dir)"
proof
  assume a: "deploy_webtop pf files w = (r, w') \<and> snd r = 200"
  then obtain y t ds rs pid where y: "map_of files (str ''docker-compose'') = Some y"
    and st: "store_artifacts pf files (manifest_after pf y) (manifest_name pf y)
       (deploy_identity pf y) (deploy_dir pf y) (fs w) = (None, t, ds, rs)"
    and r: "r = deploy_ok (deploy_identity pf y) (deploy_dir pf y) (deploy_port pf y)
           (manifest_name pf y) ds rs pid"
    and w': "w' = w\<lparr>fs := t, calls := calls w @ [launch (deploy_dir pf y)]\<rparr>"
    by (auto elim: deploy_webtop_okE)
  let ?wid = "deploy_identity pf y"
  have word: "?wid \<noteq> []" "list_all (is_word (unicode pf)) ?wid"
    using deploy_identity_word[of pf y] by simp_all
  have src: "?wid = str ''default_user''
     \<or> (\<exists>y. map_of files (str ''docker-compose'') = Some y
           \<and> fst (extract_user_from_yaml (unicode pf) y) = Some ?wid)"
    using y by (auto simp: deploy_identity_def py_or_def split: option.splits)
  have "47 \<notin> set ?wid"
    using word(2) by (auto simp: list_all_iff dest: is_word_not_slash)
  then have sep: "47 \<notin> set (str ''webtop_'' @ ?wid)"
    by (simp add: str_def)
  have dir: "map_of (fs w') (deploy_dir pf y) = Some Dir"
    using store_artifacts_created[OF deploy_dir_shape manifest_name_def st] w' by simp
  show "\<exists>wid. field r ''webtop_id'' = Some (JString wid)
        \<and> wid \<noteq> [] \<and> list_all (is_word (unicode pf)) wid
        \<and> (wid = str ''default_user''
            \<or> (\<exists>y. map_of files (str ''docker-compose'') = Some y
                  \<and> fst (extract_user_from_yaml (unicode pf) y) = Some wid))
        \<and> 47 \<notin> set (str ''webtop_'' @ wid)
        \<and> field r ''webtop_dir'' = Some (JString (UPLOAD_DIR @ str ''/'' @ str ''webtop_'' @ wid))
        \<and> map_of (fs w') (UPLOAD_DIR @ str ''/'' @ str ''webtop_'' @ wid) = Some Dir"
    using word src sep dir unfolding r deploy_ok_fields deploy_dir_eq
    by (intro exI[of _ ?wid]) simp
qed

lemma run_sh_safe: "list_all safe_char (str ''run.sh'')" "hd (str ''run.sh'') \<noteq> 46"
  by (simp_all add: str_def safe_char_def)

lemma artifact_path_confined:
  assumes d: "d \<noteq> []" "\<not> suffix (str ''/'') d"
    and a: "artifact_path pf d p"
  shows "\<exists>name. p = path_join d name
           \<and> (name = str ''run.sh'' \<or> (\<exists>raw. name = secure_filename (unicode pf) (nfkd pf) raw))
           \<and> p = d @ str ''/'' @ name \<and> name \<noteq> [] \<and> 47 \<notin> set name
           \<and> name \<noteq> str ''.'' \<and> name \<noteq> str ''..''"
proof -
  from a obtain name where p: "p = path_join d name" and ne: "name \<noteq> []"
    and src: "name = str ''run.sh'' \<or> (\<exists>raw. name = secure_filename (unicode pf) (nfkd pf) raw)"
    unfolding artifact_path_def by blast
  have safe: "list_all safe_char name" and hd: "hd name \<noteq> 46"
    using src ne run_sh_safe secure_filename_safe secure_filename_hd by auto
  have "hd name \<noteq> 47"
    using safe ne by (cases name) (auto dest: safe_char_not_slash)
  then have "p = d @ str ''/'' @ name"
    unfolding p using d ne by (intro path_join_child)
  moreover have "47 \<notin> set name"
    using safe by (auto simp: list_all_iff dest: safe_char_not_slash)
  moreover have "name \<noteq> str ''.''" "name \<noteq> str ''..''"
    using hd by (auto simp: str_def)
  ultimately show ?thesis
    using p ne src by blast
qed

text \<open>
  Claim C8.  Whatever parts a deploy request holds and however the deploy ends, also when it
  fails half way, every path at which it changes the file system is either a directory that
  \<open>os.makedirs\<close> created on the way to the workload directory, or a file written at
  \<open>os.path.join(workload directory, name)\<close> where \<open>name\<close> is \<open>run.sh\<close> or a result of
  \<open>secure_filename\<close>.  Such a path is the workload directory, one \<open>/\<close> and a name that is not
  empty, holds no \<open>/\<close> and is neither \<open>.\<close> nor \<open>..\<close>: no file name of the client, path
  traversal included, makes the deploy write outside the workload directory.
\<close>

theorem deploy_writes_confined:
  "deploy_webtop pf files w = (r, w') \<and> map_of (fs w') p \<noteq> map_of (fs w) p \<longrightarrow>
     (\<exists>y. map_of files (str ''docker-compose'') = Some y
        \<and> ((map_of (fs w) p = None \<and> map_of (fs w') p = Some Dir
             \<and> p \<in> set (path_prefixes (deploy_dir pf y)))
            \<or> (\<exists>name data. map_of (fs w') p = Some (File data)
                  \<and> p = path_join (deploy_dir pf y) name
                  \<and> (name = str ''run.sh''
                      \<or> (\<exists>raw. name = secure_filename (unicode pf) (nfkd pf) raw))
                  \<and> p = deploy_dir pf y @ str ''/'' @ name
                  \<and> name \<noteq> [] \<and> 47 \<notin> set name
                  \<and> name \<noteq> str ''.'' \<and> name \<noteq> str ''..'')))"
proof
  assume a: "deploy_webtop pf files w = (r, w') \<and> map_of (fs w') p \<noteq> map_of (fs w) p"
  then have "w' \<noteq> w" by auto
  with a obtain y e ds rs where y: "map_of files (str ''docker-compose'') = Some y"
    and st: "store_artifacts pf files (manifest_after pf y) (manifest_name pf y)
                 (deploy_identity pf y) (deploy_dir pf y) (fs w) = (e, fs w', ds, rs)"
    using deploy_webtop_fs[of pf files w r w'] by blast
  let ?d = "deploy_dir pf y"
  from store_artifacts_frame[OF deploy_dir_shape manifest_name_def st] a
  obtain t1 where mk: "makedirs (fs w) ?d = Inr t1" and wi: "writes_inside pf ?d t1 (fs w')"
    by auto
  from wi have c1: "map_of (fs w') p = map_of t1 p
      \<or> ((\<exists>data. map_of (fs w') p = Some (File data)) \<and> artifact_path pf ?d p)"
    by (auto simp: writes_inside_def)
  from makedirs_frame[OF mk, of p] have c2: "map_of t1 p = map_of (fs w) p
     \<or> (map_of (fs w) p = None \<and> map_of t1 p = Some Dir \<and> p \<in> set (path_prefixes ?d))" .
  from c1 show "\<exists>y. map_of files (str ''docker-compose'') = Some y
        \<and> ((map_of (fs w) p = None \<and> map_of (fs w') p = Some Dir
             \<and> p \<in> set (path_prefixes (deploy_dir pf y)))
            \<or> (\<exists>name data. map_of (fs w') p = Some (File data)
                  \<and> p = path_join (deploy_dir pf y) name
                  \<and> (name = str ''run.sh''
                      \<or> (\<exists>raw. name = secure_filename (unicode pf) (nfkd pf) raw))
                  \<and> p = deploy_dir pf y @ str ''/'' @ name
                  \<and> name \<noteq> [] \<and> 47 \<notin> set name
                  \<and> name \<noteq> str ''.'' \<and> name \<noteq> str ''..''))"
  proof
    assume "map_of (fs w') p = map_of t1 p"
    with c2 a have "map_of (fs w) p = None \<and> map_of (fs w') p = Some Dir
             \<and> p \<in> set (path_prefixes ?d)"
      by auto
    with y show ?thesis by blast
  next
    assume f: "(\<exists>data. map_of (fs w') p = Some (File data)) \<and> artifact_path pf ?d p"
    then obtain data where data: "map_of (fs w') p = Some (File data)" by blast
    from artifact_path_confined[OF deploy_dir_shape conjunct2[OF f]]
    obtain name where "p = path_join ?d name
           \<and> (name = str ''run.sh'' \<or> (\<exists>raw. name = secure_filename (unicode pf) (nfkd pf) raw))
           \<and> p = ?d @ str ''/'' @ name \<and> name \<noteq> [] \<and> 47 \<notin> set name
           \<and> name \<noteq> str ''.'' \<and> name \<noteq> str ''..''"
      by blast
    with y data show ?thesis by blast
  qed
qed

lemma scenario_run_sh:
  "map_of scenario_stored (scenario_dir @ str ''/run.sh'')
     = Some (File (fst (encode_chunks
          (run_sh_chunks (str ''bob'') scenario_dir (str ''docker-compose.yaml'') []))))"
  by (simp add: scenario_stored_def update_conv')

lemma scenario_encoded:
  "utf8_encode (concat (run_sh_chunks (str ''bob'') scenario_dir (str ''docker-compose.yaml'') []))
     = Inr (fst (encode_chunks
          (run_sh_chunks (str ''bob'') scenario_dir (str ''docker-compose.yaml'') [])))"
proof -
  have "snd (encode_chunks
      (run_sh_chunks (str ''bob'') scenario_dir (str ''docker-compose.yaml'') [])) = None"
    by (intro encode_chunks_ok run_sh_chunks_encodable) (simp_all add: scenario_dir_def)
  then have "encode_chunks
      (run_sh_chunks (str ''bob'') scenario_dir (str ''docker-compose.yaml'') [])
     = (fst (encode_chunks
          (run_sh_chunks (str ''bob'') scenario_dir (str ''docker-compose.yaml'') [])), None)"
    by (metis prod.collapse)
  then show ?thesis by (rule encode_chunks_concat)
qed

lemma scenario_untouched: "map_of (fs scenario_world) (scenario_dir @ str ''/run.sh'') = None"
  by code_simp

lemma scenario_no_build:
  "list_all (\<lambda>c. \<not> sublist (str ''docker build'') c)
     (script_head (str ''bob'') scenario_dir False
      @ launch_block (str ''bob'') (str ''docker-compose.yaml''))"
  by code_simp

lemma scenario_up:
  "str ''docker compose -f docker-compose.yaml up -d'' @ NL
     \<in> set (launch_block (str ''bob'') (str ''docker-compose.yaml''))"
  by (simp add: launch_block_def str_def)

text \<open>
  Claim C1.  The request holds one part, under the key \<open>docker-compose\<close> and named
  \<open>docker-compose.yaml\<close>, whose bytes are exactly
  \<open>container_name: webtop-ubuntu-xfce-bob\n    - "3030:3000"\<close>; the upload directory exists and
  the script can be launched.  The response is a success that reports the identity \<open>bob\<close>, an
  empty \<open>dockerfiles\<close> list and an empty \<open>resources\<close> list; \<open>run.sh\<close> holds the head of the script
  followed by the bring-up block and nothing else, so the \<open>docker compose ... up -d\<close> line is
  written and no text written holds \<open>docker build\<close>.  The port of the response is \<open>null\<close>
  and not 3030: \<open>extract_port_from_yaml\<close>, whose docstring says that it looks for a port
  mapping like \<open>"3021:3000"\<close>, searches \<open>-\s*(\d+):3000\<close>, and this pattern does not let
  the quote of such a mapping stand between the dash and the digits.
\<close>

theorem deploy_scenario:
  "(let (r, w') = deploy_webtop (scenario_platform pid) scenario_request scenario_world;
        script = script_head (str ''bob'') scenario_dir False
                 @ launch_block (str ''bob'') (str ''docker-compose.yaml'')
    in snd r = 200
       \<and> field r ''webtop_id'' = Some (JString (str ''bob''))
       \<and> field r ''port'' = Some JNull
       \<and> files_field r ''dockerfiles'' = Some (JList [])
       \<and> files_field r ''resources'' = Some (JList [])
       \<and> (\<exists>data. map_of (fs w') (str ''/opt/webtops/uploads/webtop_bob/run.sh'') = Some (File data)
              \<and> utf8_encode (concat script) = Inr data)
       \<and> str ''docker compose -f docker-compose.yaml up -d'' @ NL \<in> set script
       \<and> list_all (\<lambda>c. \<not> sublist (str ''docker build'') c) script)"
proof -
  have s: "run_sh_chunks (str ''bob'') scenario_dir (str ''docker-compose.yaml'') []
            = script_head (str ''bob'') scenario_dir False
              @ launch_block (str ''bob'') (str ''docker-compose.yaml'')"
    using run_sh_chunks_structure[of "str ''bob''" scenario_dir "str ''docker-compose.yaml''" "[]"]
    by simp
  have p: "str ''/opt/webtops/uploads/webtop_bob/run.sh'' = scenario_dir @ str ''/run.sh''"
    by (simp add: scenario_dir_def str_def)
  show ?thesis
    unfolding scenario_deploy Let_def prod.case deploy_ok_fields p
    using scenario_run_sh scenario_encoded scenario_no_build scenario_up
    by (simp add: s json_of_port_def)
qed

theorem deploy_identity_safe_witness:
  "snd (fst (deploy_webtop (scenario_platform 7) scenario_request scenario_world)) = 200
   \<and> (\<exists>wid. field (fst (deploy_webtop (scenario_platform 7) scenario_request scenario_world))
               ''webtop_id'' = Some (JString wid)
        \<and> wid \<noteq> [] \<and> list_all (is_word (unicode (scenario_platform 7))) wid
        \<and> 47 \<notin> set (str ''webtop_'' @ wid)
        \<and> map_of (fs (snd (deploy_webtop (scenario_platform 7) scenario_request scenario_world)))
             (UPLOAD_DIR @ str ''/'' @ str ''webtop_'' @ wid) = Some Dir)"
proof -
  let ?D = "deploy_webtop (scenario_platform 7) scenario_request scenario_world"
  have ok: "snd (fst ?D) = 200"
    unfolding scenario_deploy fst_conv deploy_ok_fields by (rule refl)
  have "?D = (fst ?D, snd ?D) \<and> snd (fst ?D) = 200"
    using ok by simp
  from deploy_identity_safe[THEN mp, OF this] ok show ?thesis
    by blast
qed

lemma traversal_parts:
  "traversal_request \<noteq> []"
  "map_of traversal_request (str ''docker-compose'') = Some traversal_yaml"
  "truthy traversal_yaml"
  "sort (remdups (map fst traversal_request))
     = [str ''docker-compose'', str ''dockerfile-1'', str ''dockerfile-2'', str ''resource-1'']"
  by code_simp+

lemma traversal_inspect:
  "deploy_identity (scenario_platform pid) traversal_yaml = str ''bob''"
  "deploy_dir (scenario_platform pid) traversal_yaml = scenario_dir"
  "manifest_name (scenario_platform pid) traversal_yaml = str ''docker-compose.yaml''"
  "deploy_port (scenario_platform pid) traversal_yaml = None"
  "fst (read (manifest_after (scenario_platform pid) traversal_yaml)) = scenario_manifest"
  by code_simp+

lemma traversal_uploads:
  "save_uploads (scenario_platform pid) traversal_request scenario_dir
     (str ''dockerfile-'') (str ''Dockerfile.'')
     [str ''docker-compose'', str ''dockerfile-1'', str ''dockerfile-2'', str ''resource-1'']
     (AList.update (scenario_dir @ str ''/docker-compose.yaml'') (File scenario_manifest)
        (fs scenario_world @ [(scenario_dir, Dir)]), [], 0)
   = (None,
      AList.update (scenario_dir @ str ''/b.Dockerfile'') (File ''FROM b'')
        (AList.update (scenario_dir @ str ''/a.Dockerfile'') (File ''FROM a'')
           (AList.update (scenario_dir @ str ''/docker-compose.yaml'') (File scenario_manifest)
              (fs scenario_world @ [(scenario_dir, Dir)]))),
      [str ''a.Dockerfile'', str ''b.Dockerfile''], 2)"
  "save_uploads (scenario_platform pid) traversal_request scenario_dir
     (str ''resource-'') (str ''resource_'')
     [str ''docker-compose'', str ''dockerfile-1'', str ''dockerfile-2'', str ''resource-1'']
     (AList.update (scenario_dir @ str ''/b.Dockerfile'') (File ''FROM b'')
        (AList.update (scenario_dir @ str ''/a.Dockerfile'') (File ''FROM a'')
           (AList.update (scenario_dir @ str ''/docker-compose.yaml'') (File scenario_manifest)
              (fs scenario_world @ [(scenario_dir, Dir)]))), [], 0)
   = (None, traversal_saved, [str ''etc_passwd''], 1)"
  "open_w traversal_saved (scenario_dir @ str ''/run.sh'') = None"
  by code_simp+


lemma traversal_store:
  "store_artifacts (scenario_platform pid) traversal_request
     (manifest_after (scenario_platform pid) traversal_yaml) (str ''docker-compose.yaml'')
     (str ''bob'') scenario_dir (fs scenario_world)
   = (None, traversal_stored, [str ''a.Dockerfile'', str ''b.Dockerfile''], [str ''etc_passwd''])"
proof -
  let ?pf = "scenario_platform pid"
  let ?t1 = "fs scenario_world @ [(scenario_dir, Dir)]"
  let ?t2 = "AList.update (scenario_dir @ str ''/docker-compose.yaml'') (File scenario_manifest) ?t1"
  have sv: "save (manifest_after ?pf traversal_yaml)
              (path_join scenario_dir (str ''docker-compose.yaml'')) ?t1 = Inr ?t2"
    using saveI[OF scenario_fs_steps(4), of "manifest_after ?pf traversal_yaml"]
    by (simp only: scenario_fs_steps(2) traversal_inspect(5))
  have enc: "snd (encode_chunks
      (run_sh_chunks (str ''bob'') scenario_dir (str ''docker-compose.yaml'')
         [str ''a.Dockerfile'', str ''b.Dockerfile''])) = None"
    by (intro encode_chunks_ok run_sh_chunks_encodable) (simp_all add: scenario_dir_def)
  let ?t3 = "AList.update (scenario_dir @ str ''/b.Dockerfile'') (File ''FROM b'')
              (AList.update (scenario_dir @ str ''/a.Dockerfile'') (File ''FROM a'') ?t2)"
  have up1: "save_uploads ?pf traversal_request scenario_dir (str ''dockerfile-'')
               (str ''Dockerfile.'') (sort (remdups (map fst traversal_request))) (?t2, [], 0)
             = (None, ?t3, [str ''a.Dockerfile'', str ''b.Dockerfile''], 2)"
    unfolding traversal_parts(4) by (rule traversal_uploads(1))
  have up2: "save_uploads ?pf traversal_request scenario_dir (str ''resource-'')
               (str ''resource_'') (sort (remdups (map fst traversal_request))) (?t3, [], 0)
             = (None, traversal_saved, [str ''etc_passwd''], 1)"
    unfolding traversal_parts(4) by (rule traversal_uploads(2))
  have ow: "open_w traversal_saved (path_join scenario_dir (str ''run.sh'')) = None"
    unfolding scenario_fs_steps(3) by (rule traversal_uploads(3))
  show ?thesis
    unfolding traversal_stored_def scenario_fs_steps(3)[symmetric]
    by (rule store_artifacts_okI[OF scenario_fs_steps(1) sv up1 up2 ow enc])
qed

lemma traversal_deploy:
  "deploy_webtop (scenario_platform pid) traversal_request scenario_world
   = (deploy_ok (str ''bob'') scenario_dir None (str ''docker-compose.yaml'')
        [str ''a.Dockerfile'', str ''b.Dockerfile''] [str ''etc_passwd''] pid,
      scenario_world\<lparr>fs := traversal_stored, calls := calls scenario_world @ [launch scenario_dir]\<rparr>)"
proof -
  have p: "popen (scenario_platform pid) (scenario_world\<lparr>fs := traversal_stored\<rparr>)
             (launch (deploy_dir (scenario_platform pid) traversal_yaml)) = Inr pid"
    by (simp add: scenario_platform_def)
  show ?thesis
    using deploy_webtop_okI[OF traversal_parts(1-3) _ p,
            of "[str ''a.Dockerfile'', str ''b.Dockerfile'']" "[str ''etc_passwd'']"]
      traversal_store[of pid]
    by (simp only: traversal_inspect)
qed

lemma traversal_files:
  "map_of traversal_stored (scenario_dir @ str ''/docker-compose.yaml'') = Some (File scenario_manifest)"
  "map_of traversal_stored (scenario_dir @ str ''/a.Dockerfile'') = Some (File ''FROM a'')"
  "map_of traversal_stored (scenario_dir @ str ''/etc_passwd'') = Some (File ''root'')"
  "map_of traversal_stored (str ''/opt/webtops/etc/passwd'') = None"
  "map_of traversal_stored (str ''/etc/passwd'') = None"
proof -
  have ne: "scenario_dir @ str ''/docker-compose.yaml'' \<noteq> scenario_dir @ str ''/run.sh''"
    "scenario_dir @ str ''/a.Dockerfile'' \<noteq> scenario_dir @ str ''/run.sh''"
    "scenario_dir @ str ''/etc_passwd'' \<noteq> scenario_dir @ str ''/run.sh''"
    "str ''/opt/webtops/etc/passwd'' \<noteq> scenario_dir @ str ''/run.sh''"
    "str ''/etc/passwd'' \<noteq> scenario_dir @ str ''/run.sh''"
    by code_simp+
  have sv: "map_of traversal_saved (scenario_dir @ str ''/docker-compose.yaml'') = Some (File scenario_manifest)"
    "map_of traversal_saved (scenario_dir @ str ''/a.Dockerfile'') = Some (File ''FROM a'')"
    "map_of traversal_saved (scenario_dir @ str ''/etc_passwd'') = Some (File ''root'')"
    "map_of traversal_saved (str ''/opt/webtops/etc/passwd'') = None"
    "map_of traversal_saved (str ''/etc/passwd'') = None"
    by code_simp+
  show "map_of traversal_stored (scenario_dir @ str ''/docker-compose.yaml'') = Some (File scenario_manifest)"
    "map_of traversal_stored (scenario_dir @ str ''/a.Dockerfile'') = Some (File ''FROM a'')"
    "map_of traversal_stored (scenario_dir @ str ''/etc_passwd'') = Some (File ''root'')"
    "map_of traversal_stored (str ''/opt/webtops/etc/passwd'') = None"
    "map_of traversal_stored (str ''/etc/passwd'') = None"
    unfolding traversal_stored_def update_conv' using ne sv by simp_all
qed

lemma traversal_before:
  "map_of (fs scenario_world) (scenario_dir @ str ''/docker-compose.yaml'') = None"
  "map_of (fs scenario_world) (scenario_dir @ str ''/a.Dockerfile'') = None"
  "map_of (fs scenario_world) (scenario_dir @ str ''/etc_passwd'') = None"
  by code_simp+

lemma traversal_names:
  "secure_filename (\<lambda>c. UOther) (\<lambda>s. s) (str ''../../docker-compose.yaml'') = str ''docker-compose.yaml''"
  "secure_filename (\<lambda>c. UOther) (\<lambda>s. s) (str ''../a.Dockerfile'') = str ''a.Dockerfile''"
  "secure_filename (\<lambda>c. UOther) (\<lambda>s. s) (str ''../../etc/passwd'') = str ''etc_passwd''"
  by code_simp+

theorem deploy_writes_confined_witness:
  "(\<exists>r w'. deploy_webtop (scenario_platform 7) traversal_request scenario_world = (r, w')
      \<and> map_of (fs scenario_world) (scenario_dir @ str ''/etc_passwd'') = None
      \<and> map_of (fs w') (scenario_dir @ str ''/etc_passwd'') = Some (File ''root'')
      \<and> map_of (fs w') (str ''/opt/webtops/etc/passwd'') = None
      \<and> map_of (fs w') (str ''/etc/passwd'') = None
      \<and> (\<exists>y name raw. map_of traversal_request (str ''docker-compose'') = Some y
            \<and> scenario_dir @ str ''/etc_passwd'' = deploy_dir (scenario_platform 7) y @ str ''/'' @ name
            \<and> name = secure_filename (unicode (scenario_platform 7)) (nfkd (scenario_platform 7)) raw
            \<and> name \<noteq> [] \<and> 47 \<notin> set name \<and> name \<noteq> str ''.'' \<and> name \<noteq> str ''..''))"
proof -
  let ?pf = "scenario_platform 7"
  let ?D = "deploy_webtop ?pf traversal_request scenario_world"
  let ?p = "scenario_dir @ str ''/etc_passwd''"
  have D: "?D = (fst ?D, snd ?D)" by simp
  have w': "fs (snd ?D) = traversal_stored"
    unfolding traversal_deploy by simp
  have ch: "map_of (fs (snd ?D)) ?p \<noteq> map_of (fs scenario_world) ?p"
    unfolding w' traversal_files traversal_before by simp
  from deploy_writes_confined[THEN mp, OF conjI[OF D ch]] obtain y where
    y: "map_of traversal_request (str ''docker-compose'') = Some y"
    and c: "(map_of (fs scenario_world) ?p = None \<and> map_of (fs (snd ?D)) ?p = Some Dir
             \<and> ?p \<in> set (path_prefixes (deploy_dir ?pf y)))
            \<or> (\<exists>name data. map_of (fs (snd ?D)) ?p = Some (File data)
                  \<and> ?p = path_join (deploy_dir ?pf y) name
                  \<and> (name = str ''run.sh''
                      \<or> (\<exists>raw. name = secure_filename (unicode ?pf) (nfkd ?pf) raw))
                  \<and> ?p = deploy_dir ?pf y @ str ''/'' @ name
                  \<and> name \<noteq> [] \<and> 47 \<notin> set name
                  \<and> name \<noteq> str ''.'' \<and> name \<noteq> str ''..'')"
    by blast
  have y': "y = traversal_yaml"
    using y by (simp add: traversal_parts)
  have nd: "map_of (fs (snd ?D)) ?p \<noteq> Some Dir"
    unfolding w' traversal_files by simp
  from c nd obtain name where n: "?p = deploy_dir ?pf y @ str ''/'' @ name"
    "name = str ''run.sh'' \<or> (\<exists>raw. name = secure_filename (unicode ?pf) (nfkd ?pf) raw)"
    "name \<noteq> []" "47 \<notin> set name" "name \<noteq> str ''.''" "name \<noteq> str ''..''"
    by blast
  from n(1) have "name = str ''etc_passwd''"
    unfolding y' traversal_inspect by (simp add: str_def)
  then have "name \<noteq> str ''run.sh''"
    by (simp add: str_def)
  with n(2) obtain raw where "name = secure_filename (unicode ?pf) (nfkd ?pf) raw"
    by blast
  with y n show ?thesis
    using D w' traversal_files traversal_before by metis
qed

section \<open>Stop, cleanup and list\<close>

lemma stop_webtop_absent:
  assumes "\<not> path_exists (fs w) (workload_dir webtop_id)"
  shows "stop_webtop pf webtop_id w = (dir_not_found webtop_id, w)"
  using assms by (simp add: stop_webtop_def workload_dir_def)

lemma stop_webtop_no_manifest:
  assumes "listdir (fs w) (workload_dir webtop_id) = Inr names"
    and "filter is_manifest_name names = []"
  shows "snd (fst (stop_webtop pf webtop_id w)) = 404 \<and> snd (stop_webtop pf webtop_id w) = w"
proof -
  have "path_exists (fs w) (workload_dir webtop_id)"
    using assms(1) by (auto simp: listdir_def path_exists_def split: option.splits)
  then show ?thesis
    using assms by (simp add: stop_webtop_def workload_dir_def)
qed

lemma stop_webtop_run:
  assumes "listdir (fs w) (workload_dir webtop_id) = Inr names"
    and "filter is_manifest_name names = y # ys"
    and "subprocess_run pf w
           (compose_down (path_join (workload_dir webtop_id) y) (workload_dir webtop_id))
         = Inr result"
  shows "snd (stop_webtop pf webtop_id w)
           = w\<lparr>calls := calls w @
                 [compose_down (path_join (workload_dir webtop_id) y) (workload_dir webtop_id)]\<rparr>"
    and "returncode result = 0 \<Longrightarrow> snd (fst (stop_webtop pf webtop_id w)) = 200
           \<and> field (fst (stop_webtop pf webtop_id w)) ''status'' = Some (JString (str ''success''))
           \<and> field (fst (stop_webtop pf webtop_id w)) ''output'' = Some (JString (stdout result))"
    and "returncode result \<noteq> 0 \<Longrightarrow> snd (fst (stop_webtop pf webtop_id w)) = 500
           \<and> field (fst (stop_webtop pf webtop_id w)) ''status'' = Some (JString (str ''error''))
           \<and> field (fst (stop_webtop pf webtop_id w)) ''error'' = Some (JString (stderr result))"
proof -
  have ex: "path_exists (fs w) (workload_dir webtop_id)"
    using assms(1) by (auto simp: listdir_def path_exists_def split: option.splits)
  show "snd (stop_webtop pf webtop_id w)
           = w\<lparr>calls := calls w @
                 [compose_down (path_join (workload_dir webtop_id) y) (workload_dir webtop_id)]\<rparr>"
    using assms ex by (simp add: stop_webtop_def workload_dir_def Let_def)
  show "returncode result = 0 \<Longrightarrow> snd (fst (stop_webtop pf webtop_id w)) = 200
           \<and> field (fst (stop_webtop pf webtop_id w)) ''status'' = Some (JString (str ''success''))
           \<and> field (fst (stop_webtop pf webtop_id w)) ''output'' = Some (JString (stdout result))"
    using assms ex by (simp add: stop_webtop_def workload_dir_def Let_def field_def)
  show "returncode result \<noteq> 0 \<Longrightarrow> snd (fst (stop_webtop pf webtop_id w)) = 500
           \<and> field (fst (stop_webtop pf webtop_id w)) ''status'' = Some (JString (str ''error''))
           \<and> field (fst (stop_webtop pf webtop_id w)) ''error'' = Some (JString (stderr result))"
    using assms ex by (simp add: stop_webtop_def workload_dir_def Let_def field_def)
qed

lemma stop_webtop_invoked:
  assumes "calls (snd (stop_webtop pf webtop_id w)) \<noteq> calls w"
  shows "\<exists>names. listdir (fs w) (workload_dir webtop_id) = Inr names
           \<and> filter is_manifest_name names \<noteq> []"
  using assms
  by (auto simp: stop_webtop_def workload_dir_def Let_def dir_not_found_def request_failed_def
      split: if_splits sum.splits list.splits)


lemma stop_webtop_blocked:
  assumes "map_of (fs w) (workload_dir webtop_id) = Some (File b)"
  shows "snd (fst (stop_webtop pf webtop_id w)) = 500 \<and> snd (stop_webtop pf webtop_id w) = w"
  using assms
  by (simp add: stop_webtop_def workload_dir_def path_exists_def listdir_def request_failed_def)

text \<open>
  Claim C6.  \<open>stop\<close> answers 404 and leaves the world as it is when nothing exists at the path
  of the workload directory, and also when the workload directory exists and no entry of it
  has a name that ends in \<open>.yaml\<close> or \<open>.yml\<close>.  When the directory holds such entries, the
  command \<open>docker compose -f <the first of them> down\<close> is run in the workload directory; if
  it comes back with exit code zero the answer is 200 with status \<open>success\<close>, otherwise it is
  500 with status \<open>error\<close> and the captured standard error.  The command is run in no other
  case: whenever \<open>stop\<close> has run a command, the workload directory exists and holds such an
  entry.  When the path holds a regular file instead of a directory, the listing fails and
  the answer is 500, not 404.
\<close>

theorem stop_webtop_spec:
  "(\<not> path_exists (fs w) (workload_dir webtop_id) \<longrightarrow>
      snd (fst (stop_webtop pf webtop_id w)) = 404 \<and> snd (stop_webtop pf webtop_id w) = w)
   \<and> (listdir (fs w) (workload_dir webtop_id) = Inr names
        \<and> filter is_manifest_name names = [] \<longrightarrow>
      snd (fst (stop_webtop pf webtop_id w)) = 404 \<and> snd (stop_webtop pf webtop_id w) = w)
   \<and> (listdir (fs w) (workload_dir webtop_id) = Inr names
        \<and> filter is_manifest_name names = y # ys
        \<and> subprocess_run pf w
             (compose_down (path_join (workload_dir webtop_id) y) (workload_dir webtop_id))
           = Inr result \<longrightarrow>
      snd (stop_webtop pf webtop_id w)
        = w\<lparr>calls := calls w @
              [compose_down (path_join (workload_dir webtop_id) y) (workload_dir webtop_id)]\<rparr>
      \<and> (if returncode result = 0
          then snd (fst (stop_webtop pf webtop_id w)) = 200
             \<and> field (fst (stop_webtop pf webtop_id w)) ''status''
                 = Some (JString (str ''success''))
          else snd (fst (stop_webtop pf webtop_id w)) = 500
             \<and> field (fst (stop_webtop pf webtop_id w)) ''status''
                 = Some (JString (str ''error''))
             \<and> field (fst (stop_webtop pf webtop_id w)) ''error''
                 = Some (JString (stderr result))))
   \<and> (calls (snd (stop_webtop pf webtop_id w)) \<noteq> calls w \<longrightarrow>
      (\<exists>found. listdir (fs w) (workload_dir webtop_id) = Inr found
         \<and> filter is_manifest_name found \<noteq> []))
   \<and> (map_of (fs w) (workload_dir webtop_id) = Some (File b) \<longrightarrow>
      snd (fst (stop_webtop pf webtop_id w)) = 500 \<and> snd (stop_webtop pf webtop_id w) = w)"
proof (intro conjI impI)
  assume "\<not> path_exists (fs w) (workload_dir webtop_id)"
  then show "snd (fst (stop_webtop pf webtop_id w)) = 404"
    and "snd (stop_webtop pf webtop_id w) = w"
    by (simp_all add: stop_webtop_absent dir_not_found_def)
next
  assume a: "listdir (fs w) (workload_dir webtop_id) = Inr names
        \<and> filter is_manifest_name names = []"
  then show "snd (fst (stop_webtop pf webtop_id w)) = 404"
    and "snd (stop_webtop pf webtop_id w) = w"
    using stop_webtop_no_manifest[of w webtop_id names pf] by simp_all
next
  assume a: "listdir (fs w) (workload_dir webtop_id) = Inr names
        \<and> filter is_manifest_name names = y # ys
        \<and> subprocess_run pf w
             (compose_down (path_join (workload_dir webtop_id) y) (workload_dir webtop_id))
           = Inr result"
  then have l: "listdir (fs w) (workload_dir webtop_id) = Inr names"
    and f: "filter is_manifest_name names = y # ys"
    and r: "subprocess_run pf w
             (compose_down (path_join (workload_dir webtop_id) y) (workload_dir webtop_id))
           = Inr result"
    by simp_all
  show "snd (stop_webtop pf webtop_id w)
        = w\<lparr>calls := calls w @
              [compose_down (path_join (workload_dir webtop_id) y) (workload_dir webtop_id)]\<rparr>"
    by (rule stop_webtop_run(1)[OF l f r])
  show "if returncode result = 0
          then snd (fst (stop_webtop pf webtop_id w)) = 200
             \<and> field (fst (stop_webtop pf webtop_id w)) ''status''
                 = Some (JString (str ''success''))
          else snd (fst (stop_webtop pf webtop_id w)) = 500
             \<and> field (fst (stop_webtop pf webtop_id w)) ''status''
                 = Some (JString (str ''error''))
             \<and> field (fst (stop_webtop pf webtop_id w)) ''error''
                 = Some (JString (stderr result))"
    using stop_webtop_run(2,3)[OF l f r] by (cases "returncode result = 0") simp_all
next
  assume "calls (snd (stop_webtop pf webtop_id w)) \<noteq> calls w"
  then show "\<exists>found. listdir (fs w) (workload_dir webtop_id) = Inr found
         \<and> filter is_manifest_name found \<noteq> []"
    by (rule stop_webtop_invoked)
next
  assume "map_of (fs w) (workload_dir webtop_id) = Some (File b)"
  then show "snd (fst (stop_webtop pf webtop_id w)) = 500"
    and "snd (stop_webtop pf webtop_id w) = w"
    using stop_webtop_blocked[of w webtop_id b pf] by simp_all
qed

text \<open>
  No directory stands at the path of the workload \<open>bob\<close>, a regular file does: \<open>stop\<close> answers
  500.
\<close>

theorem stop_webtop_counterexample:
  "map_of (fs blocked_registry) (workload_dir (str ''bob'')) = Some (File ''reserved'')
   \<and> snd (fst (stop_webtop (runtime_platform \<lparr>returncode = 0, stdout = [], stderr = []\<rparr>)
                 (str ''bob'') blocked_registry)) = 500"
  by code_simp

lemma workload_bob: "workload_dir (str ''bob'') = scenario_dir"
  by code_simp

lemma registry_listings:
  "\<not> path_exists (fs scenario_world) scenario_dir"
  "listdir (fs empty_workload) scenario_dir = Inr [str ''run.sh'']"
  "filter is_manifest_name [str ''run.sh''] = []"
  "listdir (fs stored_workload) scenario_dir = Inr [str ''docker-compose.yaml'', str ''run.sh'']"
  "filter is_manifest_name [str ''docker-compose.yaml'', str ''run.sh'']
     = [str ''docker-compose.yaml'']"
  by code_simp+

theorem stop_webtop_spec_witness:
  "snd (fst (stop_webtop (runtime_platform \<lparr>returncode = 0, stdout = [], stderr = []\<rparr>)
               (str ''bob'') scenario_world)) = 404
   \<and> snd (fst (stop_webtop (runtime_platform \<lparr>returncode = 0, stdout = [], stderr = []\<rparr>)
               (str ''bob'') empty_workload)) = 404
   \<and> snd (fst (stop_webtop (runtime_platform \<lparr>returncode = 0, stdout = [], stderr = []\<rparr>)
               (str ''bob'') stored_workload)) = 200
   \<and> snd (fst (stop_webtop
               (runtime_platform \<lparr>returncode = 1, stdout = [], stderr = str ''no such service''\<rparr>)
               (str ''bob'') stored_workload)) = 500
   \<and> field (fst (stop_webtop
               (runtime_platform \<lparr>returncode = 1, stdout = [], stderr = str ''no such service''\<rparr>)
               (str ''bob'') stored_workload)) ''error'' = Some (JString (str ''no such service''))
   \<and> (\<exists>found. listdir (fs stored_workload) (workload_dir (str ''bob'')) = Inr found
         \<and> filter is_manifest_name found \<noteq> [])"
proof -
  let ?ok = "\<lparr>returncode = 0, stdout = [], stderr = []\<rparr>"
  let ?bad = "\<lparr>returncode = 1, stdout = [], stderr = str ''no such service''\<rparr>"
  let ?y = "str ''docker-compose.yaml''"
  note T = stop_webtop_spec[where webtop_id = "str ''bob''", unfolded workload_bob]
  have r: "\<And>res w c. subprocess_run (runtime_platform res) w c = Inr res"
    by (simp add: runtime_platform_def)
  have 1: "snd (fst (stop_webtop (runtime_platform ?ok) (str ''bob'') scenario_world)) = 404"
    using T[of scenario_world "runtime_platform ?ok", THEN conjunct1] registry_listings(1)
    by simp
  have 2: "snd (fst (stop_webtop (runtime_platform ?ok) (str ''bob'') empty_workload)) = 404"
    using T[of empty_workload "runtime_platform ?ok" "[str ''run.sh'']",
        THEN conjunct2, THEN conjunct1] registry_listings(2,3)
    by simp
  have c3: "\<And>res. snd (stop_webtop (runtime_platform res) (str ''bob'') stored_workload)
        = stored_workload\<lparr>calls := calls stored_workload @
              [compose_down (path_join scenario_dir ?y) scenario_dir]\<rparr>
      \<and> (if returncode res = 0
          then snd (fst (stop_webtop (runtime_platform res) (str ''bob'') stored_workload)) = 200
             \<and> field (fst (stop_webtop (runtime_platform res) (str ''bob'') stored_workload)) ''status''
                 = Some (JString (str ''success''))
          else snd (fst (stop_webtop (runtime_platform res) (str ''bob'') stored_workload)) = 500
             \<and> field (fst (stop_webtop (runtime_platform res) (str ''bob'') stored_workload)) ''status''
                 = Some (JString (str ''error''))
             \<and> field (fst (stop_webtop (runtime_platform res) (str ''bob'') stored_workload)) ''error''
                 = Some (JString (stderr res)))"
    using T[of stored_workload _ "[?y, str ''run.sh'']" ?y "[]",
        THEN conjunct2, THEN conjunct2, THEN conjunct1] registry_listings(4,5) r
    by simp
  have 3: "snd (fst (stop_webtop (runtime_platform ?ok) (str ''bob'') stored_workload)) = 200"
    using c3[of ?ok] by simp
  have 4: "snd (fst (stop_webtop (runtime_platform ?bad) (str ''bob'') stored_workload)) = 500"
    and 5: "field (fst (stop_webtop (runtime_platform ?bad) (str ''bob'') stored_workload)) ''error''
              = Some (JString (str ''no such service''))"
    using c3[of ?bad] by simp_all
  have "calls (snd (stop_webtop (runtime_platform ?ok) (str ''bob'') stored_workload))
          \<noteq> calls stored_workload"
    using c3[of ?ok] by simp
  then have 6: "\<exists>found. listdir (fs stored_workload) scenario_dir = Inr found
         \<and> filter is_manifest_name found \<noteq> []"
    using T[of stored_workload "runtime_platform ?ok",
        THEN conjunct2, THEN conjunct2, THEN conjunct2, THEN conjunct1] by blast
  show ?thesis
    using 1 2 3 4 5 6 unfolding workload_bob by blast
qed

























end
